theory Spec2Isabelle
  imports Main "HOL-Library.List_Lexorder"
begin

section \<open>Python strings\<close>

text \<open>
  A Python \<open>str\<close> is a sequence of Unicode code points. Isabelle's \<open>char\<close> has only
  256 values, and the import command names the trade mark sign U+2122, so a string is
  modelled as the list of its code points. \<open>u\<close> turns an ASCII literal into such a list.
\<close>

type_synonym ustr = "nat list"

definition u :: "string \<Rightarrow> ustr" where
  "u s = map of_char s"

text \<open>
  The characters \<open>str.strip()\<close>, \<open>str.isspace()\<close> and the regular expression class
  \<open>\s\<close> (on a \<open>str\<close> pattern) treat as whitespace: the Unicode white space
  code points, the same set for all three.
\<close>

definition is_space :: "nat \<Rightarrow> bool" where
  "is_space c =
     (c \<in> {9, 10, 11, 12, 13, 28, 29, 30, 31, 32, 133, 160, 5760,
            8232, 8233, 8239, 8287, 12288}
      \<or> (8192 \<le> c \<and> c \<le> 8202))"

text \<open>\<open>s.strip()\<close>: leading and trailing whitespace removed.\<close>

definition py_strip :: "ustr \<Rightarrow> ustr" where
  "py_strip s = rev (dropWhile is_space (rev (dropWhile is_space s)))"

text \<open>
  \<open>s.split(sep)\<close> for a one-character separator: one part more than there are
  separators, so the result is never empty and \<open>''.split(sep) == ['']\<close>.
\<close>

fun py_split :: "nat \<Rightarrow> ustr \<Rightarrow> ustr list" where
  "py_split sep [] = [[]]"
| "py_split sep (c # cs) =
     (if c = sep then [] # py_split sep cs
      else (case py_split sep cs of
              [] \<Rightarrow> [[c]]
            | p # ps \<Rightarrow> (c # p) # ps))"

text \<open>\<open>s.replace(c, r)\<close> for a one-character pattern \<open>c\<close>.\<close>

definition py_replace :: "nat \<Rightarrow> ustr \<Rightarrow> ustr \<Rightarrow> ustr" where
  "py_replace c r s = concat (map (\<lambda>x. if x = c then r else [x]) s)"

text \<open>
  \<open>s.lower()\<close> on a string of code points below U+0100, where it works character by
  character. The parser lowers five ASCII column labels and the examples lower ASCII
  titles; where the code lowers an arbitrary string (\<open>sort_results\<close>), the lower-casing
  is a parameter.
\<close>

definition lower_char :: "nat \<Rightarrow> nat" where
  "lower_char c =
     (if (65 \<le> c \<and> c \<le> 90) \<or> (192 \<le> c \<and> c \<le> 222 \<and> c \<noteq> 215) then c + 32 else c)"

definition py_lower :: "ustr \<Rightarrow> ustr" where
  "py_lower s = map lower_char s"

section \<open>parsers.py\<close>

text \<open>
  A cell of a CSV row is a \<open>str\<close> or \<open>None\<close> (\<open>csv.DictReader\<close> fills a short row
  with \<open>None\<close>); a row maps column labels to cells. \<open>row.get(k)\<close> is \<open>None\<close> both for
  an absent label and for a \<open>None\<close> cell, and \<open>a or b\<close> is \<open>b\<close> when \<open>a\<close> is \<open>None\<close> or
  the empty string.
\<close>

type_synonym cell = "ustr option"
type_synonym row = "ustr \<rightharpoonup> cell"

definition row_get :: "row \<Rightarrow> ustr \<Rightarrow> cell" where
  "row_get r k = (case r k of None \<Rightarrow> None | Some v \<Rightarrow> v)"

definition py_or :: "cell \<Rightarrow> cell \<Rightarrow> cell" where
  "py_or a b = (if a = None \<or> a = Some [] then b else a)"

definition missing :: ustr where
  "missing = u ''missing''"

definition split_semicolon_field :: "cell \<Rightarrow> ustr list" where
  "split_semicolon_field v =
     (case v of
        None \<Rightarrow> []
      | Some s \<Rightarrow>
          if s = [] \<or> py_strip s = [] then []
          else map py_strip (filter (\<lambda>p. py_strip p \<noteq> []) (py_split 59 s)))"

text \<open>
  \<open>parse_isbn\<close>: the loop appends every non-empty stripped part of
  \<open>value.replace(" ", "").split(",")\<close>; an empty result becomes \<open>["missing"]\<close>.
\<close>

definition isbn_parts :: "ustr \<Rightarrow> ustr list" where
  "isbn_parts s = filter (\<lambda>p. p \<noteq> []) (map py_strip (py_split 44 (py_replace 32 [] s)))"

definition parse_isbn :: "cell \<Rightarrow> ustr list" where
  "parse_isbn v =
     (case v of
        None \<Rightarrow> [missing]
      | Some s \<Rightarrow>
          if s = [] \<or> py_strip s = [] then [missing]
          else if isbn_parts s = [] then [missing] else isbn_parts s)"

definition normalize_text :: "cell \<Rightarrow> ustr" where
  "normalize_text v = (case v of None \<Rightarrow> [] | Some s \<Rightarrow> py_strip s)"

text \<open>
  The identifier parser as the specification words it: remove all whitespace, split on
  the comma, trim each part, drop the empty parts, and return the sentinel when nothing
  is left.
\<close>

definition parse_identifier_spec :: "ustr \<Rightarrow> ustr list" where
  "parse_identifier_spec s =
     (let parts = filter (\<lambda>p. p \<noteq> [])
                    (map py_strip (py_split 44 (filter (\<lambda>c. \<not> is_space c) s)))
      in if parts = [] then [missing] else parts)"

text \<open>
  \<open>parse_row_to_record\<close> returns a dict with all nine keys; \<open>upsert_from_parsed\<close>
  reads seven of them with \<open>parsed.get(key, default)\<close>, so in the model of the dict a
  key read with a default may be absent (\<open>None\<close>).
\<close>

datatype extra = Scalar ustr | Multi "ustr list"

record parsed =
  p_bl_record_id :: ustr
  p_title :: ustr
  p_variant_titles :: "ustr list option"
  p_authors :: "ustr list option"
  p_publication_years :: "ustr list option"
  p_genres :: "ustr list option"
  p_languages :: "ustr list option"
  p_isbn :: "ustr list option"
  p_other_fields :: "(ustr \<rightharpoonup> extra) option"

definition other_columns :: "ustr list" where
  "other_columns =
     [u ''Publisher'', u ''Place of publication'', u ''Topics'',
      u ''Physical description'', u ''Notes'']"

definition other_key :: "ustr \<Rightarrow> ustr" where
  "other_key key = py_replace 32 [95] (py_lower key)"

definition other_value :: "cell \<Rightarrow> extra" where
  "other_value val =
     (case val of
        None \<Rightarrow> Scalar (normalize_text val)
      | Some s \<Rightarrow>
          if s \<noteq> [] \<and> 59 \<in> set s then Multi (split_semicolon_field val)
          else Scalar (normalize_text val))"

definition parse_other :: "row \<Rightarrow> (ustr \<rightharpoonup> extra)" where
  "parse_other r =
     foldl (\<lambda>other key.
              if r key \<noteq> None then other(other_key key \<mapsto> other_value (row_get r key))
              else other)
       Map.empty other_columns"

definition parse_row_to_record :: "row \<Rightarrow> parsed" where
  "parse_row_to_record r =
     \<lparr> p_bl_record_id =
         normalize_text
           (py_or (py_or (row_get r (u ''BL record ID'')) (row_get r (u ''BL record id'')))
                  (row_get r (u ''BL record id''))),
       p_title = normalize_text (py_or (row_get r (u ''Title'')) (row_get r (u ''Title ''))),
       p_variant_titles =
         Some (split_semicolon_field
                 (py_or (row_get r (u ''Variant titles'')) (row_get r (u ''Variant titles '')))),
       p_authors =
         Some (split_semicolon_field (py_or (row_get r (u ''Name'')) (row_get r (u ''Name '')))),
       p_publication_years =
         Some (split_semicolon_field
                 (py_or (row_get r (u ''Date of publication''))
                        (row_get r (u ''Date of publication '')))),
       p_genres =
         Some (split_semicolon_field (py_or (row_get r (u ''Genre'')) (row_get r (u ''Genre '')))),
       p_languages =
         Some (split_semicolon_field
                 (py_or (row_get r (u ''Languages'')) (row_get r (u ''Languages '')))),
       p_isbn = Some (parse_isbn (py_or (row_get r (u ''ISBN'')) (row_get r (u ''ISBN '')))),
       p_other_fields = Some (parse_other r) \<rparr>"

section \<open>models.py\<close>

text \<open>
  The fields of \<open>Comic\<close> the core reads and writes (\<open>created_at\<close> is a time stamp the
  core never reads). \<open>Comic(bl_record_id=k)\<close> has the declared defaults: the empty
  string for a \<open>CharField\<close>, \<open>list()\<close> and \<open>dict()\<close> for the JSON fields.
\<close>

record comic =
  bl_record_id :: ustr
  title :: ustr
  variant_titles :: "ustr list"
  authors :: "ustr list"
  publication_years :: "ustr list"
  genres :: "ustr list"
  languages :: "ustr list"
  isbn :: "ustr list"
  other_fields :: "ustr \<rightharpoonup> extra"

definition new_comic :: "ustr \<Rightarrow> comic" where
  "new_comic k =
     \<lparr> bl_record_id = k, title = [], variant_titles = [], authors = [],
       publication_years = [], genres = [], languages = [], isbn = [],
       other_fields = Map.empty \<rparr>"

record search_log =
  query_text :: ustr
  result_ids :: "ustr list"
  num_results :: nat

section \<open>repositories.py\<close>

text \<open>
  \<open>list({*a, *b})\<close> builds a set from the elements of \<open>a\<close> and then of \<open>b\<close> and lists
  it in the set's iteration order. Every element comes out once; the order follows from
  the hash values, which change from one run to the next. The order is therefore a
  parameter: a function from the inserted sequence to a duplicate-free list of the same
  elements.
\<close>

typedef set_order =
  "{f :: ustr list \<Rightarrow> ustr list. \<forall>xs. set (f xs) = set xs \<and> distinct (f xs)}"
  by (rule exI [of _ remdups]) simp

setup_lifting type_definition_set_order

lift_definition list_of_set :: "set_order \<Rightarrow> ustr list \<Rightarrow> ustr list" is "\<lambda>f. f" .

lift_definition insertion_order :: set_order is remdups
  by simp

text \<open>
  The record store is the table of comics in primary key order:
  \<open>Comic.objects.filter(bl_record_id=k).first()\<close> is the first row with that identifier.
  A row read from the table has its primary key and a fresh \<open>Comic(...)\<close> has none, so
  the test \<open>if obj.pk\<close> asks which of the two the lookup gave. \<open>obj.save()\<close> rewrites
  the row that was read, or appends the new one.
\<close>

definition get_by_bl_id :: "comic list \<Rightarrow> ustr \<Rightarrow> comic option" where
  "get_by_bl_id store bl_id = find (\<lambda>c. bl_record_id c = bl_id) store"

fun save_row :: "ustr \<Rightarrow> comic \<Rightarrow> comic list \<Rightarrow> comic list" where
  "save_row k obj [] = [obj]"
| "save_row k obj (c # cs) =
     (if bl_record_id c = k then obj # cs else c # save_row k obj cs)"

text \<open>
  \<open>get_list\<close> is \<open>parsed.get(field, [])\<close>, and \<open>merge_field\<close> is the right-hand side
  of each of the five lines
  \<open>obj.f = list({*obj.f, *parsed.get(f, [])}) if obj.pk else parsed.get(f, [])\<close>.
\<close>

definition get_list :: "ustr list option \<Rightarrow> ustr list" where
  "get_list v = (case v of None \<Rightarrow> [] | Some xs \<Rightarrow> xs)"

definition merge_field :: "set_order \<Rightarrow> bool \<Rightarrow> ustr list \<Rightarrow> ustr list option \<Rightarrow> ustr list" where
  "merge_field ord has_pk old new =
     (if has_pk then list_of_set ord (old @ get_list new) else get_list new)"

definition upsert_from_parsed :: "set_order \<Rightarrow> comic list \<Rightarrow> parsed \<Rightarrow> comic list \<times> comic" where
  "upsert_from_parsed ord store p =
     (let found = get_by_bl_id store (p_bl_record_id p);
          obj = (case found of None \<Rightarrow> new_comic (p_bl_record_id p) | Some c \<Rightarrow> c);
          has_pk = (found \<noteq> None);
          obj' = obj
            \<lparr> title := (if p_title p \<noteq> [] then p_title p
                        else if title obj \<noteq> [] then title obj else p_title p),
              variant_titles := merge_field ord has_pk (variant_titles obj) (p_variant_titles p),
              authors := merge_field ord has_pk (authors obj) (p_authors p),
              publication_years :=
                merge_field ord has_pk (publication_years obj) (p_publication_years p),
              genres := merge_field ord has_pk (genres obj) (p_genres p),
              languages := merge_field ord has_pk (languages obj) (p_languages p),
              isbn := (case p_isbn p of None \<Rightarrow> [missing] | Some xs \<Rightarrow> xs),
              other_fields :=
                other_fields obj ++ (case p_other_fields p of None \<Rightarrow> Map.empty | Some m \<Rightarrow> m) \<rparr>
      in (save_row (p_bl_record_id p) obj' store, obj'))"

text \<open>
  The record stores that parsing and upserting rows can produce, starting from the empty
  table; the iteration order of sets may differ from one upsert to the next, as it does
  between two runs of the import.
\<close>

inductive reachable :: "comic list \<Rightarrow> bool" where
  reachable_empty: "reachable []"
| reachable_upsert:
    "reachable store \<Longrightarrow>
     reachable (fst (upsert_from_parsed ord store (parse_row_to_record r)))"

text \<open>
  The store after a sequence of imports into the empty table: each step is a row and the
  iteration order of the sets its upsert builds. \<open>rows_of k\<close> are the rows of the
  sequence whose parsed identifier is \<open>k\<close>, in the order of their import.
\<close>

definition ingest :: "(set_order \<times> row) list \<Rightarrow> comic list" where
  "ingest steps =
     foldl (\<lambda>store (ord, r). fst (upsert_from_parsed ord store (parse_row_to_record r)))
       [] steps"




section \<open>services.py\<close>

text \<open>
  What the database does is not in the repository and enters as parameters:
  \<open>icontains field c v\<close> is Django's \<open>field__icontains=v\<close> lookup on the row \<open>c\<close>;
  \<open>collate\<close> maps a title to the key that \<open>ORDER BY title\<close> compares (in code point
  order), that is, the collation of the title column; \<open>list_repr\<close> is Python's \<open>repr\<close>
  of a list of strings, which the f-string of the query description applies to the
  language list.
\<close>

record env =
  icontains :: "ustr \<Rightarrow> comic \<Rightarrow> ustr \<Rightarrow> bool"
  collate :: "ustr \<Rightarrow> ustr"
  list_repr :: "ustr list \<Rightarrow> ustr"

text \<open>
  The search is modelled on arguments of the types its signature annotates: an optional
  string, and for the languages a string or a list of strings (the language filter accepts
  both). A parameter of the search carries the name of its entry in \<open>search_params\<close>.
  What the filters do on any other value, where they can raise, is \<open>py_apply_filter\<close>
  below; on the annotated types it returns what \<open>apply_filter\<close> returns and raises
  nothing.
\<close>

datatype lang_value = LangStr ustr | LangList "ustr list"

datatype search_param =
    Genre "ustr option"
  | Author "ustr option"
  | Year "ustr option"
  | Title "ustr option"
  | Languages "lang_value option"
  | Edition "ustr option"
  | NameType "ustr option"

text \<open>
  The genre, author, year, edition and name type filters have the same body and differ
  in the field they look up.
\<close>

definition icontains_filter :: "env \<Rightarrow> ustr \<Rightarrow> comic list \<Rightarrow> ustr option \<Rightarrow> comic list" where
  "icontains_filter e field queryset v =
     (case v of
        None \<Rightarrow> queryset
      | Some s \<Rightarrow>
          if s = [] \<or> py_strip s = [] then queryset
          else filter (\<lambda>c. icontains e field c (py_strip s)) queryset)"

definition title_filter :: "env \<Rightarrow> comic list \<Rightarrow> ustr option \<Rightarrow> comic list" where
  "title_filter e queryset v =
     (case v of
        None \<Rightarrow> queryset
      | Some s \<Rightarrow>
          if s = [] \<or> py_strip s = [] then queryset
          else filter (\<lambda>c. icontains e (u ''title'') c (py_strip s)
                          \<or> icontains e (u ''variant_titles'') c (py_strip s)) queryset)"

definition language_tokens :: "lang_value \<Rightarrow> ustr list" where
  "language_tokens v =
     (case v of
        LangStr s \<Rightarrow> map py_strip (filter (\<lambda>lang. py_strip lang \<noteq> []) (py_split 44 s))
      | LangList xs \<Rightarrow> map py_strip (filter (\<lambda>lang. lang \<noteq> [] \<and> py_strip lang \<noteq> []) xs))"

definition language_filter :: "env \<Rightarrow> comic list \<Rightarrow> lang_value option \<Rightarrow> comic list" where
  "language_filter e queryset v =
     (case v of
        None \<Rightarrow> queryset
      | Some lv \<Rightarrow>
          if lv = LangStr [] \<or> lv = LangList [] then queryset
          else if language_tokens lv = [] then queryset
          else filter (\<lambda>c. list_ex (\<lambda>lang. icontains e (u ''languages'') c lang)
                               (language_tokens lv)) queryset)"

fun apply_filter :: "env \<Rightarrow> comic list \<Rightarrow> search_param \<Rightarrow> comic list" where
  "apply_filter e queryset (Genre v) = icontains_filter e (u ''genres'') queryset v"
| "apply_filter e queryset (Author v) = icontains_filter e (u ''authors'') queryset v"
| "apply_filter e queryset (Year v) = icontains_filter e (u ''publication_years'') queryset v"
| "apply_filter e queryset (Title v) = title_filter e queryset v"
| "apply_filter e queryset (Languages v) = language_filter e queryset v"
| "apply_filter e queryset (Edition v) = icontains_filter e (u ''other_fields'') queryset v"
| "apply_filter e queryset (NameType v) = icontains_filter e (u ''other_fields'') queryset v"

fun param_name :: "search_param \<Rightarrow> ustr" where
  "param_name (Genre v) = u ''genre''"
| "param_name (Author v) = u ''author''"
| "param_name (Year v) = u ''year''"
| "param_name (Title v) = u ''title''"
| "param_name (Languages v) = u ''languages''"
| "param_name (Edition v) = u ''edition''"
| "param_name (NameType v) = u ''name_type''"

text \<open>\<open>if param_value\<close>: neither \<open>None\<close> nor an empty string nor an empty list.\<close>

definition str_present :: "ustr option \<Rightarrow> bool" where
  "str_present v = (v \<noteq> None \<and> v \<noteq> Some [])"

definition lang_present :: "lang_value option \<Rightarrow> bool" where
  "lang_present v = (v \<noteq> None \<and> v \<noteq> Some (LangStr []) \<and> v \<noteq> Some (LangList []))"

fun param_present :: "search_param \<Rightarrow> bool" where
  "param_present (Genre v) = str_present v"
| "param_present (Author v) = str_present v"
| "param_present (Year v) = str_present v"
| "param_present (Title v) = str_present v"
| "param_present (Languages v) = lang_present v"
| "param_present (Edition v) = str_present v"
| "param_present (NameType v) = str_present v"

text \<open>The text of \<open>{param_value}\<close> in the f-string, for a value that is present.\<close>

definition str_text :: "ustr option \<Rightarrow> ustr" where
  "str_text v = (case v of None \<Rightarrow> u ''None'' | Some s \<Rightarrow> s)"

definition lang_text :: "env \<Rightarrow> lang_value option \<Rightarrow> ustr" where
  "lang_text e v =
     (case v of
        None \<Rightarrow> u ''None''
      | Some (LangStr s) \<Rightarrow> s
      | Some (LangList xs) \<Rightarrow> list_repr e xs)"

fun param_text :: "env \<Rightarrow> search_param \<Rightarrow> ustr" where
  "param_text e (Genre v) = str_text v"
| "param_text e (Author v) = str_text v"
| "param_text e (Year v) = str_text v"
| "param_text e (Title v) = str_text v"
| "param_text e (Languages v) = lang_text e v"
| "param_text e (Edition v) = str_text v"
| "param_text e (NameType v) = str_text v"

definition applied_entry :: "env \<Rightarrow> search_param \<Rightarrow> ustr" where
  "applied_entry e p = param_name p @ u ''='' @ param_text e p"

record search_args =
  title_query :: "ustr option"
  genre :: "ustr option"
  author :: "ustr option"
  year :: "ustr option"
  edition :: "ustr option"
  languages_arg :: "lang_value option"
  name_type :: "ustr option"

text \<open>\<open>_clean_search_params\<close>, on the values of these types.\<close>

definition clean_str :: "ustr option \<Rightarrow> ustr option" where
  "clean_str v =
     (case v of
        None \<Rightarrow> None
      | Some s \<Rightarrow> if py_strip s = [] then None else Some (py_strip s))"

definition clean_lang :: "lang_value option \<Rightarrow> lang_value option" where
  "clean_lang v =
     (case v of
        None \<Rightarrow> None
      | Some (LangStr s) \<Rightarrow> if py_strip s = [] then None else Some (LangStr (py_strip s))
      | Some (LangList xs) \<Rightarrow>
          (let clean_list = map py_strip (filter (\<lambda>item. item \<noteq> [] \<and> py_strip item \<noteq> []) xs)
           in if clean_list = [] then None else Some (LangList clean_list)))"

definition clean_search_params :: "search_args \<Rightarrow> search_args" where
  "clean_search_params a =
     \<lparr> title_query = clean_str (title_query a), genre = clean_str (genre a),
       author = clean_str (author a), year = clean_str (year a),
       edition = clean_str (edition a), languages_arg = clean_lang (languages_arg a),
       name_type = clean_str (name_type a) \<rparr>"

text \<open>The dict \<open>search_params\<close>, in the order its keys are written.\<close>

definition search_params :: "search_args \<Rightarrow> search_param list" where
  "search_params params =
     [Genre (genre params), Author (author params), Year (year params),
      Title (title_query params), Languages (languages_arg params),
      Edition (edition params), NameType (name_type params)]"

text \<open>
  The loop over \<open>search_params.items()\<close>: a parameter that is present is applied and
  noted in \<open>applied_filters\<close>; \<open>break\<close> when the query set has no row left.
\<close>

fun apply_filters :: "env \<Rightarrow> search_param list \<Rightarrow> comic list \<Rightarrow> ustr list \<Rightarrow> comic list \<times> ustr list" where
  "apply_filters e [] qs applied_filters = (qs, applied_filters)"
| "apply_filters e (p # ps) qs applied_filters =
     (if param_present p then
        (let qs' = apply_filter e qs p;
             applied' = applied_filters @ [applied_entry e p]
         in if qs' = [] then (qs', applied') else apply_filters e ps qs' applied')
      else apply_filters e ps qs applied_filters)"

fun py_join :: "ustr \<Rightarrow> ustr list \<Rightarrow> ustr" where
  "py_join sep [] = []"
| "py_join sep [x] = x"
| "py_join sep (x # y # ys) = x @ sep @ py_join sep (y # ys)"

text \<open>
  \<open>search\<close>: the store is \<open>Comic.objects.all()\<close>; \<open>qs.order_by("title")[:10000]\<close> is
  the first 10000 rows in the order of the title column (rows with equal keys are kept in
  table order here; SQL leaves their order open). The log entry is appended to the table
  of search logs; its time stamp is left out, and so is a failure of the database to
  write it, which \<open>search\<close> swallows.
\<close>

definition search :: "env \<Rightarrow> comic list \<Rightarrow> search_log list \<Rightarrow> search_args \<Rightarrow> comic list \<times> search_log list" where
  "search e store log args =
     (let params = clean_search_params args;
          (qs, applied_filters) = apply_filters e (search_params params) store [];
          results = take 10000 (sort_key (\<lambda>c. collate e (title c)) qs);
          query_text = (if applied_filters \<noteq> [] then py_join (u '' AND '') applied_filters
                        else u ''empty_search'')
      in (results,
          log @ [\<lparr> query_text = query_text, result_ids = map bl_record_id results,
                   num_results = length results \<rparr>]))"

text \<open>
  \<open>AlphabeticalSortStrategy.sort\<close> and \<open>sort_results\<close>: a stable sort by the lower-cased
  title; with \<open>reverse=True\<close> the order is descending and equal keys keep their order.
  \<open>lower\<close> is \<open>str.lower()\<close>: on an arbitrary title it follows the Unicode case tables
  (and the position of a sigma in its word), which are not in the repository.
\<close>

definition sort_results :: "(ustr \<Rightarrow> ustr) \<Rightarrow> comic list \<Rightarrow> ustr \<Rightarrow> comic list" where
  "sort_results lower results order =
     (if order = u ''asc'' then sort_key (\<lambda>c. lower (title c)) results
      else if order = u ''desc'' then rev (sort_key (\<lambda>c. lower (title c)) (rev results))
      else results)"

text \<open>
  The filtering steps as the specification words them: the filters whose parameter is
  present, in the declared order, each applied to the result of the one before; the
  evaluation stops after the first filter that leaves no row. The second component lists
  the filters that were evaluated.
\<close>

fun spec_filter_chain :: "env \<Rightarrow> search_param list \<Rightarrow> comic list \<Rightarrow> comic list \<times> search_param list" where
  "spec_filter_chain e [] qs = (qs, [])"
| "spec_filter_chain e (p # ps) qs =
     (if apply_filter e qs p = [] then ([], [p])
      else (fst (spec_filter_chain e ps (apply_filter e qs p)),
            p # snd (spec_filter_chain e ps (apply_filter e qs p))))"

text \<open>
  \<open>top_results\<close>: \<open>counts\<close> is a dict, here the list of its items in insertion order;
  \<open>sorted(..., key=count, reverse=True)\<close> is stable; \<open>items[:limit]\<close> counts a negative
  limit from the end.
\<close>

fun count_id :: "(ustr \<times> nat) list \<Rightarrow> ustr \<Rightarrow> (ustr \<times> nat) list" where
  "count_id [] rid = [(rid, 1)]"
| "count_id ((k, n) # kvs) rid =
     (if k = rid then (k, n + 1) # kvs else (k, n) # count_id kvs rid)"

definition count_results :: "search_log list \<Rightarrow> (ustr \<times> nat) list" where
  "count_results log = foldl count_id [] (concat (map result_ids log))"

definition py_slice_to :: "int \<Rightarrow> 'a list \<Rightarrow> 'a list" where
  "py_slice_to k xs = (if 0 \<le> k then take (nat k) xs else take (length xs - nat (- k)) xs)"

definition top_results :: "comic list \<Rightarrow> search_log list \<Rightarrow> int \<Rightarrow> (comic option \<times> nat) list" where
  "top_results store log limit =
     map (\<lambda>(rid, cnt). (get_by_bl_id store rid, cnt))
       (py_slice_to limit (sort_key (\<lambda>kv. - int (snd kv)) (count_results log)))"

text \<open>
  \<open>names_in_more_than_n_results\<close>, the sibling report: it leaves out an identifier that
  no comic has (\<open>if comic:\<close>).
\<close>

definition names_in_more_than_n_results :: "comic list \<Rightarrow> search_log list \<Rightarrow> nat \<Rightarrow> (ustr \<times> nat) list" where
  "names_in_more_than_n_results store log n =
     concat (map (\<lambda>(rid, cnt).
                    if cnt > n then
                      (case get_by_bl_id store rid of
                         None \<Rightarrow> []
                       | Some comic \<Rightarrow> [(title comic, cnt)])
                    else [])
               (count_results log))"

text \<open>
  The top results as the specification words them: unresolved identifiers are skipped.
\<close>

definition top_results_spec :: "comic list \<Rightarrow> search_log list \<Rightarrow> int \<Rightarrow> (comic \<times> nat) list" where
  "top_results_spec store log limit =
     concat (map (\<lambda>(rid, cnt).
                    case get_by_bl_id store rid of
                      None \<Rightarrow> []
                    | Some comic \<Rightarrow> [(comic, cnt)])
               (py_slice_to limit (sort_key (\<lambda>kv. - int (snd kv)) (count_results log))))"

text \<open>
  The filters on any Python value. The method \<open>apply_filter\<close> of the filter classes
  has no annotation and \<open>_clean_search_params\<close> passes a value that is neither
  \<open>None\<close> nor a string nor a list through as it is, so a filter can meet any value;
  \<open>value.strip()\<close> exists for a string only (\<open>AttributeError\<close> otherwise), and the
  language filter iterates over a value that is not a string (\<open>TypeError\<close> for an
  integer). On the values of the annotated types these functions agree with the ones
  above, and they raise nothing there.
\<close>

datatype pyval = PyNone | PyStr ustr | PyInt int | PyList "pyval list"

datatype py_error = AttributeError | TypeError

fun truthy :: "pyval \<Rightarrow> bool" where
  "truthy PyNone = False"
| "truthy (PyStr s) = (s \<noteq> [])"
| "truthy (PyInt n) = (n \<noteq> 0)"
| "truthy (PyList xs) = (xs \<noteq> [])"

fun strip_method :: "pyval \<Rightarrow> py_error + ustr" where
  "strip_method (PyStr s) = Inr (py_strip s)"
| "strip_method v = Inl AttributeError"

datatype filter_class =
    GenreFilter | AuthorFilter | YearFilter | TitleFilter | LanguageFilter
  | EditionFilter | NameTypeFilter

definition py_icontains_filter :: "env \<Rightarrow> ustr \<Rightarrow> comic list \<Rightarrow> pyval \<Rightarrow> py_error + comic list" where
  "py_icontains_filter e field queryset v =
     (if \<not> truthy v then Inr queryset
      else (case strip_method v of
              Inl err \<Rightarrow> Inl err
            | Inr s \<Rightarrow>
                if s = [] then Inr queryset
                else Inr (filter (\<lambda>c. icontains e field c s) queryset)))"

definition py_title_filter :: "env \<Rightarrow> comic list \<Rightarrow> pyval \<Rightarrow> py_error + comic list" where
  "py_title_filter e queryset v =
     (if \<not> truthy v then Inr queryset
      else (case strip_method v of
              Inl err \<Rightarrow> Inl err
            | Inr s \<Rightarrow>
                if s = [] then Inr queryset
                else Inr (filter (\<lambda>c. icontains e (u ''title'') c s
                                      \<or> icontains e (u ''variant_titles'') c s) queryset)))"

text \<open>
  \<open>[lang.strip() for lang in value if lang and lang.strip()]\<close>: the first item that is
  truthy and not a string raises.
\<close>

fun py_language_items :: "pyval list \<Rightarrow> py_error + ustr list" where
  "py_language_items [] = Inr []"
| "py_language_items (lang # rest) =
     (if \<not> truthy lang then py_language_items rest
      else (case strip_method lang of
              Inl err \<Rightarrow> Inl err
            | Inr s \<Rightarrow>
                (case py_language_items rest of
                   Inl err \<Rightarrow> Inl err
                 | Inr langs \<Rightarrow> Inr (if s = [] then langs else s # langs))))"

definition py_language_tokens :: "pyval \<Rightarrow> py_error + ustr list" where
  "py_language_tokens v =
     (case v of
        PyStr s \<Rightarrow> Inr (map py_strip (filter (\<lambda>lang. py_strip lang \<noteq> []) (py_split 44 s)))
      | PyList xs \<Rightarrow> py_language_items xs
      | PyInt n \<Rightarrow> Inl TypeError
      | PyNone \<Rightarrow> Inl TypeError)"

definition py_language_filter :: "env \<Rightarrow> comic list \<Rightarrow> pyval \<Rightarrow> py_error + comic list" where
  "py_language_filter e queryset v =
     (if \<not> truthy v then Inr queryset
      else (case py_language_tokens v of
              Inl err \<Rightarrow> Inl err
            | Inr langs \<Rightarrow>
                if langs = [] then Inr queryset
                else Inr (filter (\<lambda>c. list_ex (\<lambda>lang. icontains e (u ''languages'') c lang)
                                          langs) queryset)))"

fun py_apply_filter :: "env \<Rightarrow> filter_class \<Rightarrow> comic list \<Rightarrow> pyval \<Rightarrow> py_error + comic list" where
  "py_apply_filter e GenreFilter queryset v = py_icontains_filter e (u ''genres'') queryset v"
| "py_apply_filter e AuthorFilter queryset v = py_icontains_filter e (u ''authors'') queryset v"
| "py_apply_filter e YearFilter queryset v =
     py_icontains_filter e (u ''publication_years'') queryset v"
| "py_apply_filter e TitleFilter queryset v = py_title_filter e queryset v"
| "py_apply_filter e LanguageFilter queryset v = py_language_filter e queryset v"
| "py_apply_filter e EditionFilter queryset v =
     py_icontains_filter e (u ''other_fields'') queryset v"
| "py_apply_filter e NameTypeFilter queryset v =
     py_icontains_filter e (u ''other_fields'') queryset v"

text \<open>
  \<open>_clean_search_params\<close> on one value of any type. In the list branch an item that is
  truthy and not a string has a non-blank \<open>str(item)\<close>, and \<open>item.strip()\<close> raises.
\<close>

fun py_clean_items :: "pyval list \<Rightarrow> py_error + ustr list" where
  "py_clean_items [] = Inr []"
| "py_clean_items (item # rest) =
     (if \<not> truthy item then py_clean_items rest
      else (case strip_method item of
              Inl err \<Rightarrow> Inl err
            | Inr s \<Rightarrow>
                (case py_clean_items rest of
                   Inl err \<Rightarrow> Inl err
                 | Inr clean_list \<Rightarrow> Inr (if s = [] then clean_list else s # clean_list))))"

fun py_clean_param :: "pyval \<Rightarrow> py_error + pyval" where
  "py_clean_param PyNone = Inr PyNone"
| "py_clean_param (PyStr s) = Inr (if py_strip s = [] then PyNone else PyStr (py_strip s))"
| "py_clean_param (PyList xs) =
     (case py_clean_items xs of
        Inl err \<Rightarrow> Inl err
      | Inr clean_list \<Rightarrow> Inr (if clean_list = [] then PyNone else PyList (map PyStr clean_list)))"
| "py_clean_param (PyInt n) = Inr (PyInt n)"

text \<open>
  The values of the annotated types as Python values, and the filter that
  \<open>self.filters\<close> holds for a parameter of the search.
\<close>

definition str_value :: "ustr option \<Rightarrow> pyval" where
  "str_value v = (case v of None \<Rightarrow> PyNone | Some s \<Rightarrow> PyStr s)"

definition lang_pyval :: "lang_value option \<Rightarrow> pyval" where
  "lang_pyval v =
     (case v of
        None \<Rightarrow> PyNone
      | Some (LangStr s) \<Rightarrow> PyStr s
      | Some (LangList xs) \<Rightarrow> PyList (map PyStr xs))"

fun param_value :: "search_param \<Rightarrow> pyval" where
  "param_value (Genre v) = str_value v"
| "param_value (Author v) = str_value v"
| "param_value (Year v) = str_value v"
| "param_value (Title v) = str_value v"
| "param_value (Languages v) = lang_pyval v"
| "param_value (Edition v) = str_value v"
| "param_value (NameType v) = str_value v"

fun param_filter :: "search_param \<Rightarrow> filter_class" where
  "param_filter (Genre v) = GenreFilter"
| "param_filter (Author v) = AuthorFilter"
| "param_filter (Year v) = YearFilter"
| "param_filter (Title v) = TitleFilter"
| "param_filter (Languages v) = LanguageFilter"
| "param_filter (Edition v) = EditionFilter"
| "param_filter (NameType v) = NameTypeFilter"

section \<open>management/commands/import_comics.py\<close>

text \<open>
  \<open>clean_special_characters\<close>: the replacements, in the order of the dict; then every
  character outside \<open>[\w\s\-\.\,\!\?\:\;\(\)]\<close> becomes a space; then every run of
  whitespace becomes one space and the ends are stripped. \<open>\w\<close> is an alphanumeric
  character or the underscore; which code points are alphanumeric is the Unicode table's
  matter and enters as the parameter \<open>alnum\<close>. \<open>Comic.get_clean_title\<close> in models.py runs
  the same three steps on the title.
\<close>

definition replacements :: "(nat \<times> ustr) list" where
  "replacements =
     [(38, u '' and ''), (64, u '' at ''), (35, u '' number ''), (37, u '' percent ''),
      (36, u '' dollar ''), (169, u '' copyright ''), (174, u '' registered ''),
      (8482, u '' trademark '')]"

definition replace_all :: "ustr \<Rightarrow> ustr" where
  "replace_all text = foldl (\<lambda>t (c, r). py_replace c r t) text replacements"

definition kept_punctuation :: "nat set" where
  "kept_punctuation = {45, 46, 44, 33, 63, 58, 59, 40, 41}"

definition is_word :: "(nat \<Rightarrow> bool) \<Rightarrow> nat \<Rightarrow> bool" where
  "is_word alnum c = (alnum c \<or> c = 95)"

definition blank_others :: "(nat \<Rightarrow> bool) \<Rightarrow> ustr \<Rightarrow> ustr" where
  "blank_others alnum text =
     map (\<lambda>c. if is_word alnum c \<or> is_space c \<or> c \<in> kept_punctuation then c else 32) text"

text \<open>
  \<open>re.sub(r'\s+', ' ', text)\<close>; the flag says that the character before was whitespace,
  so that the run has its space already.
\<close>

fun collapse_spaces :: "bool \<Rightarrow> ustr \<Rightarrow> ustr" where
  "collapse_spaces in_run [] = []"
| "collapse_spaces in_run (c # cs) =
     (if is_space c then
        (if in_run then collapse_spaces True cs else 32 # collapse_spaces True cs)
      else c # collapse_spaces False cs)"

definition clean_text :: "(nat \<Rightarrow> bool) \<Rightarrow> ustr \<Rightarrow> ustr" where
  "clean_text alnum text =
     py_strip (collapse_spaces False (blank_others alnum (replace_all text)))"

definition clean_special_characters :: "(nat \<Rightarrow> bool) \<Rightarrow> cell \<Rightarrow> cell" where
  "clean_special_characters alnum text =
     (case text of
        None \<Rightarrow> None
      | Some t \<Rightarrow> if t = [] then Some t else Some (clean_text alnum t))"

definition get_clean_title :: "(nat \<Rightarrow> bool) \<Rightarrow> comic \<Rightarrow> ustr" where
  "get_clean_title alnum c = clean_text alnum (title c)"

text \<open>
  The body of the loop of \<open>handle\<close> over the rows of a file: the cells are cleaned when
  the option is set, the row is parsed, and it is upserted unless its identifier is empty.
\<close>

definition clean_row :: "(nat \<Rightarrow> bool) \<Rightarrow> row \<Rightarrow> row" where
  "clean_row alnum r = (\<lambda>key. map_option (clean_special_characters alnum) (r key))"

definition import_row :: "set_order \<Rightarrow> (nat \<Rightarrow> bool) \<Rightarrow> bool \<Rightarrow> comic list \<Rightarrow> row \<Rightarrow> comic list" where
  "import_row ord alnum clean_chars store r =
     (let parsed = parse_row_to_record (if clean_chars then clean_row alnum r else r)
      in if p_bl_record_id parsed \<noteq> [] then fst (upsert_from_parsed ord store parsed)
         else store)"

section \<open>Predicates of the statements\<close>

text \<open>
  A multi-valued field holds no empty and no whitespace-only string.
\<close>

definition no_blank :: "ustr list \<Rightarrow> bool" where
  "no_blank xs = list_all (\<lambda>x. x \<noteq> [] \<and> \<not> list_all is_space x) xs"

definition comic_no_blank :: "comic \<Rightarrow> bool" where
  "comic_no_blank c =
     (no_blank (variant_titles c) \<and> no_blank (authors c) \<and> no_blank (publication_years c)
      \<and> no_blank (genres c) \<and> no_blank (languages c))"

text \<open>
  A parameter value that is blank: absent, empty or whitespace-only; for a list of
  languages, every item is.
\<close>

definition blank_str :: "ustr option \<Rightarrow> bool" where
  "blank_str v = (case v of None \<Rightarrow> True | Some s \<Rightarrow> list_all is_space s)"

definition blank_lang :: "lang_value option \<Rightarrow> bool" where
  "blank_lang v =
     (case v of
        None \<Rightarrow> True
      | Some (LangStr s) \<Rightarrow> list_all is_space s
      | Some (LangList xs) \<Rightarrow> list_all (list_all is_space) xs)"

text \<open>
  A text in which every whitespace character is a single space with no whitespace next
  to it; the flag says that the character before was whitespace.
\<close>

fun single_spaced :: "bool \<Rightarrow> ustr \<Rightarrow> bool" where
  "single_spaced after_space [] = True"
| "single_spaced after_space (c # cs) =
     (if is_space c then c = 32 \<and> \<not> after_space \<and> single_spaced True cs
      else single_spaced False cs)"

text \<open>The characters the second step of the cleaning leaves as they are.\<close>

definition kept :: "(nat \<Rightarrow> bool) \<Rightarrow> nat \<Rightarrow> bool" where
  "kept alnum c = (is_word alnum c \<or> is_space c \<or> c \<in> kept_punctuation)"

text \<open>
  A Python value that is blank: \<open>None\<close>, an empty or whitespace-only string, an empty
  list. A value of the type a string filter is annotated with: \<open>None\<close> or a string.
\<close>

fun blank_value :: "pyval \<Rightarrow> bool" where
  "blank_value PyNone = True"
| "blank_value (PyStr s) = list_all is_space s"
| "blank_value (PyInt n) = False"
| "blank_value (PyList xs) = (xs = [])"

fun str_typed :: "pyval \<Rightarrow> bool" where
  "str_typed PyNone = True"
| "str_typed (PyStr s) = True"
| "str_typed (PyInt n) = False"
| "str_typed (PyList xs) = False"

section \<open>Example rows\<close>

definition row_1A :: row where
  "row_1A = [u ''BL record ID'' \<mapsto> Some (u ''1''), u ''Name'' \<mapsto> Some (u ''A''),
             u ''ISBN'' \<mapsto> Some (u ''X'')]"

definition row_1B :: row where
  "row_1B = [u ''BL record ID'' \<mapsto> Some (u ''1''), u ''Name'' \<mapsto> Some (u ''B'')]"

definition row_dup :: row where
  "row_dup = [u ''BL record ID'' \<mapsto> Some (u ''1''), u ''Name'' \<mapsto> Some (u ''A;A'')]"


section \<open>Example store and queries\<close>

text \<open>
  A backend for the examples: a lookup on genres or authors holds when the value is one of
  the field's values, and the title column has SQLite's default collation \<open>BINARY\<close>,
  which compares the code points as they are.
\<close>

definition example_env :: env where
  "example_env =
     \<lparr> icontains = (\<lambda>field c v.
          if field = u ''genres'' then v \<in> set (genres c)
          else if field = u ''authors'' then v \<in> set (authors c)
          else False),
       collate = (\<lambda>t. t),
       list_repr = concat \<rparr>"

definition example_comic :: "ustr \<Rightarrow> ustr \<Rightarrow> ustr \<Rightarrow> ustr \<Rightarrow> comic" where
  "example_comic k t g a = (new_comic k) \<lparr> title := t, genres := [g], authors := [a] \<rparr>"

definition comic_apple :: comic where
  "comic_apple = example_comic (u ''1'') (u ''apple'') (u ''Fantasy'') (u ''Alice'')"

definition comic_zebra :: comic where
  "comic_zebra = example_comic (u ''2'') (u ''Zebra'') (u ''Horror'') (u ''Bob'')"

definition no_args :: search_args where
  "no_args = \<lparr> title_query = None, genre = None, author = None, year = None, edition = None,
               languages_arg = None, name_type = None \<rparr>"

definition horror_by_alice :: search_args where
  "horror_by_alice = no_args \<lparr> genre := Some (u '' Horror''), author := Some (u ''Alice'') \<rparr>"

section \<open>Strings: basic facts\<close>

lemma py_split_not_Nil: "py_split sep s \<noteq> []"
  by (induction s) (auto split: list.splits)

lemma py_strip_Nil_iff: "py_strip s = [] \<longleftrightarrow> list_all is_space s"
proof
  assume "py_strip s = []"
  then have all: "list_all is_space (dropWhile is_space s)"
    by (simp add: py_strip_def list_all_iff)
  have "dropWhile is_space s = []"
  proof (rule ccontr)
    assume ne: "dropWhile is_space s \<noteq> []"
    then have "\<not> is_space (hd (dropWhile is_space s))"
      by (rule hd_dropWhile)
    moreover from ne all have "is_space (hd (dropWhile is_space s))"
      by (cases "dropWhile is_space s") auto
    ultimately show False by simp
  qed
  then show "list_all is_space s"
    by (simp add: list_all_iff)
next
  assume "list_all is_space s"
  then have "dropWhile is_space s = []"
    by (simp add: list_all_iff)
  then show "py_strip s = []"
    by (simp add: py_strip_def del: dropWhile_eq_Nil_conv)
qed

lemma py_replace_delete: "py_replace c [] s = filter (\<lambda>x. x \<noteq> c) s"
  by (induction s) (auto simp: py_replace_def)

lemma py_split_no_sep: "sep \<notin> set s \<Longrightarrow> py_split sep s = [s]"
  by (induction s) auto

lemma is_space_not_comma: "is_space c \<Longrightarrow> c \<noteq> 44"
  by (auto simp: is_space_def)

lemma last_dropWhile: "dropWhile P xs \<noteq> [] \<Longrightarrow> last (dropWhile P xs) = last xs"
proof -
  assume ne: "dropWhile P xs \<noteq> []"
  have "last xs = last (takeWhile P xs @ dropWhile P xs)" by simp
  also from ne have "\<dots> = last (dropWhile P xs)" by (rule last_appendR)
  finally show ?thesis by simp
qed

lemma dropWhile_id: "xs = [] \<or> \<not> P (hd xs) \<Longrightarrow> dropWhile P xs = xs"
  by (cases xs) auto

lemma py_strip_ends:
  assumes "py_strip s \<noteq> []"
  shows "\<not> is_space (hd (py_strip s))" and "\<not> is_space (last (py_strip s))"
proof -
  let ?d = "dropWhile is_space s"
  let ?e = "dropWhile is_space (rev ?d)"
  from assms have e: "?e \<noteq> []" by (simp add: py_strip_def del: dropWhile_eq_Nil_conv)
  then have d: "?d \<noteq> []" by (auto simp del: dropWhile_eq_Nil_conv)
  from e have "\<not> is_space (hd ?e)" by (rule hd_dropWhile)
  with e show "\<not> is_space (last (py_strip s))"
    by (simp add: py_strip_def last_rev del: dropWhile_eq_Nil_conv)
  from e have "last ?e = last (rev ?d)" by (rule last_dropWhile)
  also from d have "\<dots> = hd ?d" by (simp add: last_rev del: dropWhile_eq_Nil_conv)
  finally have "last ?e = hd ?d" .
  moreover from d have "\<not> is_space (hd ?d)" by (rule hd_dropWhile)
  ultimately show "\<not> is_space (hd (py_strip s))"
    using e by (simp add: py_strip_def hd_rev del: dropWhile_eq_Nil_conv)
qed

lemma py_strip_fixed:
  assumes "s = [] \<or> (\<not> is_space (hd s) \<and> \<not> is_space (last s))"
  shows "py_strip s = s"
proof (cases "s = []")
  case True
  then show ?thesis by (simp add: py_strip_def)
next
  case False
  with assms have h: "\<not> is_space (hd s)" and l: "\<not> is_space (last s)" by auto
  from h False have "dropWhile is_space s = s" by (simp add: dropWhile_id)
  moreover from l False have "dropWhile is_space (rev s) = rev s"
    by (simp add: dropWhile_id hd_rev)
  ultimately show ?thesis by (simp add: py_strip_def)
qed

lemma py_strip_idem: "py_strip (py_strip s) = py_strip s"
  by (rule py_strip_fixed) (use py_strip_ends [of s] in blast)

lemma py_strip_not_blank: "py_strip s \<noteq> [] \<Longrightarrow> \<not> list_all is_space (py_strip s)"
  using py_strip_Nil_iff [of "py_strip s"] by (simp add: py_strip_idem)

section \<open>The identifier parser\<close>

lemma isbn_parts_blank:
  assumes "list_all is_space s"
  shows "isbn_parts s = []"
proof -
  let ?t = "filter (\<lambda>x. x \<noteq> 32) s"
  from assms have all: "list_all is_space ?t"
    by (simp add: list_all_iff)
  then have "44 \<notin> set ?t"
    by (auto simp: list_all_iff dest: is_space_not_comma)
  then have "py_split 44 ?t = [?t]"
    by (rule py_split_no_sep)
  moreover from all have "py_strip ?t = []"
    by (simp only: py_strip_Nil_iff)
  ultimately show ?thesis
    by (simp add: isbn_parts_def py_replace_delete)
qed

lemma parse_isbn_parts:
  "parse_isbn (Some s) = (if isbn_parts s = [] then [missing] else isbn_parts s)"
proof (cases "py_strip s = []")
  case True
  then have "isbn_parts s = []"
    by (simp only: py_strip_Nil_iff isbn_parts_blank)
  with True show ?thesis
    by (simp add: parse_isbn_def)
next
  case False
  then have "s \<noteq> []"
    by (auto simp: py_strip_def)
  with False show ?thesis
    by (simp add: parse_isbn_def)
qed

text \<open>
  The cases of \<open>TestParseISBN\<close> in tests/test_parsers_and_filters.py, on the model.
\<close>

lemma parse_isbn_tests:
  "parse_isbn (Some (u ''978-1234567890'')) = [u ''978-1234567890'']"
  "parse_isbn (Some (u ''978-1234567890,978-0987654321''))
     = [u ''978-1234567890'', u ''978-0987654321'']"
  "parse_isbn None = [u ''missing'']"
  "parse_isbn (Some (u '' , 978-1234567890 , '')) = [u ''978-1234567890'']"
  by (simp_all add: parse_isbn_def missing_def u_def isbn_parts_def py_replace_def
        py_strip_def is_space_def)

text \<open>
  C5, as the code has it. \<open>parse_isbn\<close> deletes the space character U+0020 only
  (\<open>value.replace(" ", "")\<close>), splits at the commas, strips each part, drops the empty
  parts, and answers \<open>["missing"]\<close> when no part is left and the parts otherwise. The
  four examples of the specification hold.
\<close>

theorem parse_isbn_spaces_only:
  "parse_isbn v =
     (let parts = filter (\<lambda>p. p \<noteq> [])
                    (map py_strip
                       (py_split 44
                          (filter (\<lambda>c. c \<noteq> 32) (case v of None \<Rightarrow> [] | Some s \<Rightarrow> s))))
      in if parts = [] then [missing] else parts)
   \<and> parse_isbn (Some (u [])) = [u ''missing'']
   \<and> parse_isbn (Some (u '' , , '')) = [u ''missing'']
   \<and> parse_isbn (Some (u ''978-X,978-Y'')) = [u ''978-X'', u ''978-Y'']
   \<and> parse_isbn (Some (u '' 978-X , 978-Y '')) = [u ''978-X'', u ''978-Y'']"
proof (intro conjI)
  show "parse_isbn v =
     (let parts = filter (\<lambda>p. p \<noteq> [])
                    (map py_strip
                       (py_split 44
                          (filter (\<lambda>c. c \<noteq> 32) (case v of None \<Rightarrow> [] | Some s \<Rightarrow> s))))
      in if parts = [] then [missing] else parts)"
  proof (cases v)
    case None
    then show ?thesis
      by (simp add: parse_isbn_def py_strip_def)
  next
    case (Some s)
    then show ?thesis
      by (simp add: parse_isbn_parts isbn_parts_def py_replace_delete Let_def)
  qed
next
  show "parse_isbn (Some (u [])) = [u ''missing'']"
    by (simp add: parse_isbn_def missing_def u_def)
next
  show "parse_isbn (Some (u '' , , '')) = [u ''missing'']"
    by (simp add: parse_isbn_def missing_def u_def isbn_parts_def py_replace_def
          py_strip_def is_space_def)
next
  show "parse_isbn (Some (u ''978-X,978-Y'')) = [u ''978-X'', u ''978-Y'']"
    by (simp add: parse_isbn_def missing_def u_def isbn_parts_def py_replace_def
          py_strip_def is_space_def)
next
  show "parse_isbn (Some (u '' 978-X , 978-Y '')) = [u ''978-X'', u ''978-Y'']"
    by (simp add: parse_isbn_def missing_def u_def isbn_parts_def py_replace_def
          py_strip_def is_space_def)
qed

text \<open>
  C5, as the claim words it ("removes all whitespace"), fails on a tab inside an
  identifier: the code keeps the tab (code point 9), the specification's parser drops it.
\<close>

theorem parse_isbn_keeps_tab:
  "parse_isbn (Some [49, 9, 50]) = [[49, 9, 50]] \<and> is_space 9
   \<and> parse_identifier_spec [49, 9, 50] = [[49, 50]]"
  by (simp add: parse_isbn_def parse_identifier_spec_def missing_def u_def isbn_parts_def
        py_replace_def py_strip_def is_space_def)

section \<open>The record store\<close>

lemma list_of_set_set: "set (list_of_set ord xs) = set xs"
  by transfer simp

lemma list_of_set_distinct: "distinct (list_of_set ord xs)"
  by transfer simp

lemma get_after_save:
  "bl_record_id obj = k \<Longrightarrow> get_by_bl_id (save_row k obj store) k = Some obj"
  by (induction store) (auto simp: get_by_bl_id_def)

lemma set_save_row: "set (save_row k obj store) \<subseteq> insert obj (set store)"
  by (induction store) auto

lemma get_by_bl_id_Some:
  "get_by_bl_id store k = Some c \<Longrightarrow> bl_record_id c = k \<and> c \<in> set store"
  by (auto simp: get_by_bl_id_def find_Some_iff)

lemma upsert_fst:
  "fst (upsert_from_parsed ord store p) =
     save_row (p_bl_record_id p) (snd (upsert_from_parsed ord store p)) store"
  by (simp add: upsert_from_parsed_def Let_def)

lemma upsert_bl_record_id:
  "bl_record_id (snd (upsert_from_parsed ord store p)) = p_bl_record_id p"
  by (cases "get_by_bl_id store (p_bl_record_id p)")
     (auto simp: upsert_from_parsed_def Let_def new_comic_def dest: get_by_bl_id_Some)

lemma upsert_lookup:
  "get_by_bl_id (fst (upsert_from_parsed ord store p)) (p_bl_record_id p) =
     Some (snd (upsert_from_parsed ord store p))"
  by (simp only: upsert_fst get_after_save [OF upsert_bl_record_id])

lemma upsert_found:
  assumes "get_by_bl_id store (p_bl_record_id p) = Some old"
  shows "title (snd (upsert_from_parsed ord store p)) =
           (if p_title p \<noteq> [] then p_title p else title old)"
    and "variant_titles (snd (upsert_from_parsed ord store p)) =
           list_of_set ord (variant_titles old @ get_list (p_variant_titles p))"
    and "authors (snd (upsert_from_parsed ord store p)) =
           list_of_set ord (authors old @ get_list (p_authors p))"
    and "publication_years (snd (upsert_from_parsed ord store p)) =
           list_of_set ord (publication_years old @ get_list (p_publication_years p))"
    and "genres (snd (upsert_from_parsed ord store p)) =
           list_of_set ord (genres old @ get_list (p_genres p))"
    and "languages (snd (upsert_from_parsed ord store p)) =
           list_of_set ord (languages old @ get_list (p_languages p))"
  using assms by (simp_all add: upsert_from_parsed_def Let_def merge_field_def)

lemma upsert_new:
  assumes "get_by_bl_id store (p_bl_record_id p) = None"
  shows "title (snd (upsert_from_parsed ord store p)) = p_title p"
    and "variant_titles (snd (upsert_from_parsed ord store p)) = get_list (p_variant_titles p)"
    and "authors (snd (upsert_from_parsed ord store p)) = get_list (p_authors p)"
    and "publication_years (snd (upsert_from_parsed ord store p)) =
           get_list (p_publication_years p)"
    and "genres (snd (upsert_from_parsed ord store p)) = get_list (p_genres p)"
    and "languages (snd (upsert_from_parsed ord store p)) = get_list (p_languages p)"
  using assms by (simp_all add: upsert_from_parsed_def Let_def merge_field_def new_comic_def)

lemma upsert_isbn:
  "isbn (snd (upsert_from_parsed ord store p)) =
     (case p_isbn p of None \<Rightarrow> [missing] | Some xs \<Rightarrow> xs)"
  by (simp add: upsert_from_parsed_def Let_def)

lemma upsert_other_fields:
  "get_by_bl_id store (p_bl_record_id p) = Some old \<Longrightarrow>
   other_fields (snd (upsert_from_parsed ord store p)) =
     other_fields old ++ (case p_other_fields p of None \<Rightarrow> Map.empty | Some m \<Rightarrow> m)"
  by (simp add: upsert_from_parsed_def Let_def)

lemma split_semicolon_field_not_blank:
  "x \<in> set (split_semicolon_field v) \<Longrightarrow> x \<noteq> [] \<and> \<not> list_all is_space x"
  by (auto simp: split_semicolon_field_def py_strip_not_blank split: option.splits if_splits)

lemma no_blank_parse:
  "no_blank (get_list (p_variant_titles (parse_row_to_record r)))"
  "no_blank (get_list (p_authors (parse_row_to_record r)))"
  "no_blank (get_list (p_publication_years (parse_row_to_record r)))"
  "no_blank (get_list (p_genres (parse_row_to_record r)))"
  "no_blank (get_list (p_languages (parse_row_to_record r)))"
  using split_semicolon_field_not_blank
  by (simp_all add: no_blank_def parse_row_to_record_def get_list_def list_all_iff)

lemma no_blank_merge:
  "no_blank old \<Longrightarrow> no_blank new \<Longrightarrow> no_blank (list_of_set ord (old @ new))"
  by (simp add: no_blank_def list_all_iff list_of_set_set) blast

lemma upsert_no_blank:
  assumes "list_all comic_no_blank store"
  shows "comic_no_blank (snd (upsert_from_parsed ord store (parse_row_to_record r)))"
proof (cases "get_by_bl_id store (p_bl_record_id (parse_row_to_record r))")
  case None
  then show ?thesis
    by (simp add: comic_no_blank_def upsert_new no_blank_parse)
next
  case (Some old)
  with assms have "comic_no_blank old"
    by (auto simp: list_all_iff dest: get_by_bl_id_Some)
  with Some show ?thesis
    by (simp add: comic_no_blank_def upsert_found no_blank_parse no_blank_merge)
qed

lemma reachable_no_blank: "reachable store \<Longrightarrow> list_all comic_no_blank store"
proof (induction rule: reachable.induct)
  case reachable_empty
  then show ?case by simp
next
  case (reachable_upsert store ord r)
  from upsert_no_blank [OF reachable_upsert.IH, of ord r] reachable_upsert.IH
  show ?case
    using set_save_row [of "p_bl_record_id (parse_row_to_record r)"
             "snd (upsert_from_parsed ord store (parse_row_to_record r))" store]
    by (auto simp: upsert_fst list_all_iff)
qed

subsection \<open>The example rows, parsed\<close>

lemmas eval_defs = parse_row_to_record_def row_get_def py_or_def u_def normalize_text_def
  split_semicolon_field_def py_strip_def is_space_def parse_isbn_def missing_def isbn_parts_def
  py_replace_def get_list_def

lemma p1A: "p_bl_record_id (parse_row_to_record row_1A) = u ''1''"
  "p_authors (parse_row_to_record row_1A) = Some [u ''A'']"
  "p_isbn (parse_row_to_record row_1A) = Some [u ''X'']"
  by (simp_all add: row_1A_def eval_defs)

lemma p1B: "p_bl_record_id (parse_row_to_record row_1B) = u ''1''"
  "p_authors (parse_row_to_record row_1B) = Some [u ''B'']"
  "p_isbn (parse_row_to_record row_1B) = Some [u ''missing'']"
  by (simp_all add: row_1B_def eval_defs)

lemma pdup: "p_bl_record_id (parse_row_to_record row_dup) = u ''1''"
  "p_authors (parse_row_to_record row_dup) = Some [u ''A'', u ''A'']"
  by (simp_all add: row_dup_def eval_defs)


subsection \<open>Upsert of an existing record\<close>

text \<open>
  C1. When the parsed record's identifier is already in the store, \<open>upsert_from_parsed\<close>
  stores a record whose title is the parsed title if that is non-empty and the old title
  otherwise, whose five multi-valued fields hold exactly the old values together with the
  parsed ones, each value once, whose \<open>isbn\<close> is the parsed list (the old one is dropped), and whose
  \<open>other_fields\<close> has, key by key, the parsed value where there is one and the old
  value otherwise.
\<close>

theorem upsert_existing_merges:
  assumes "get_by_bl_id store (p_bl_record_id p) = Some old"
  shows "(let (store', new) = upsert_from_parsed ord store p in
      get_by_bl_id store' (p_bl_record_id p) = Some new
      \<and> title new = (if p_title p \<noteq> [] then p_title p else title old)
      \<and> set (variant_titles new) = set (variant_titles old) \<union> set (get_list (p_variant_titles p))
      \<and> distinct (variant_titles new)
      \<and> set (authors new) = set (authors old) \<union> set (get_list (p_authors p))
      \<and> distinct (authors new)
      \<and> set (publication_years new) =
          set (publication_years old) \<union> set (get_list (p_publication_years p))
      \<and> distinct (publication_years new)
      \<and> set (genres new) = set (genres old) \<union> set (get_list (p_genres p))
      \<and> distinct (genres new)
      \<and> set (languages new) = set (languages old) \<union> set (get_list (p_languages p))
      \<and> distinct (languages new)
      \<and> isbn new = (case p_isbn p of None \<Rightarrow> [missing] | Some xs \<Rightarrow> xs)
      \<and> (\<forall>k. other_fields new k =
            (case (case p_other_fields p of None \<Rightarrow> Map.empty | Some m \<Rightarrow> m) k of
               None \<Rightarrow> other_fields old k
             | Some v \<Rightarrow> Some v)))"
proof -
  have "other_fields (snd (upsert_from_parsed ord store p)) k =
            (case (case p_other_fields p of None \<Rightarrow> Map.empty | Some m \<Rightarrow> m) k of
               None \<Rightarrow> other_fields old k
             | Some v \<Rightarrow> Some v)" for k
    by (simp add: upsert_other_fields [OF assms] map_add_def)
  then show ?thesis
    by (simp add: case_prod_unfold upsert_lookup upsert_found [OF assms] upsert_isbn
          list_of_set_set list_of_set_distinct)
qed

text \<open>
  The specification's example: \<open>{id: "1", authors: ["A"], identifiers: ["X"]}\<close>, then a
  row for the same identifier with author \<open>B\<close> and no ISBN.
\<close>

theorem upsert_existing_merges_witness:
  "(let store = fst (upsert_from_parsed insertion_order [] (parse_row_to_record row_1A));
        old = snd (upsert_from_parsed insertion_order [] (parse_row_to_record row_1A));
        new = snd (upsert_from_parsed insertion_order store (parse_row_to_record row_1B))
    in get_by_bl_id store (p_bl_record_id (parse_row_to_record row_1B)) = Some old
       \<and> authors old = [u ''A''] \<and> isbn old = [u ''X'']
       \<and> set (authors new) = {u ''A'', u ''B''} \<and> distinct (authors new)
       \<and> isbn new = [u ''missing''])"
proof -
  let ?pa = "parse_row_to_record row_1A" and ?pb = "parse_row_to_record row_1B"
  let ?store = "fst (upsert_from_parsed insertion_order [] ?pa)"
  let ?old = "snd (upsert_from_parsed insertion_order [] ?pa)"
  have found: "get_by_bl_id ?store (p_bl_record_id ?pb) = Some ?old"
    using upsert_lookup [of insertion_order "[]" ?pa] by (simp add: p1A p1B)
  have old: "authors ?old = [u ''A'']" "isbn ?old = [u ''X'']"
    by (simp_all add: upsert_new get_by_bl_id_def upsert_isbn p1A get_list_def)
  from upsert_existing_merges [OF found, of insertion_order] found old
  show ?thesis
    by (simp add: case_prod_unfold Let_def p1B get_list_def) (auto simp: u_def)
qed

subsection \<open>Importing a row twice\<close>

text \<open>
  C2, as the code has it. Parsing a row and upserting it twice leaves each multi-valued
  field with the same values as upserting it once, and after the second upsert each value
  stands once in the list; both times the record is stored under the row's identifier.
  When the identifier was in the store before the first upsert, the list was free of
  duplicates after the first upsert already, so the second only rearranges it. The
  statement holds for every row, so also for those with a non-empty identifier, and for
  any iteration orders of the sets built by the two upserts.
\<close>

theorem parse_upsert_twice:
  "(let p = parse_row_to_record r;
        (s1, r1) = upsert_from_parsed ord store p;
        (s2, r2) = upsert_from_parsed ord' s1 p
    in get_by_bl_id s1 (p_bl_record_id p) = Some r1
       \<and> get_by_bl_id s2 (p_bl_record_id p) = Some r2
       \<and> set (variant_titles r2) = set (variant_titles r1) \<and> distinct (variant_titles r2)
       \<and> set (authors r2) = set (authors r1) \<and> distinct (authors r2)
       \<and> set (publication_years r2) = set (publication_years r1)
       \<and> distinct (publication_years r2)
       \<and> set (genres r2) = set (genres r1) \<and> distinct (genres r2)
       \<and> set (languages r2) = set (languages r1) \<and> distinct (languages r2)
       \<and> (get_by_bl_id store (p_bl_record_id p) \<noteq> None \<longrightarrow>
            distinct (variant_titles r1) \<and> distinct (authors r1)
            \<and> distinct (publication_years r1) \<and> distinct (genres r1)
            \<and> distinct (languages r1)))"
proof -
  define p where "p = parse_row_to_record r"
  define s1 where "s1 = fst (upsert_from_parsed ord store p)"
  define r1 where "r1 = snd (upsert_from_parsed ord store p)"
  define r2 where "r2 = snd (upsert_from_parsed ord' s1 p)"
  have l1: "get_by_bl_id s1 (p_bl_record_id p) = Some r1"
    unfolding s1_def r1_def by (rule upsert_lookup)
  have sub: "set (get_list (p_variant_titles p)) \<subseteq> set (variant_titles r1)"
      "set (get_list (p_authors p)) \<subseteq> set (authors r1)"
      "set (get_list (p_publication_years p)) \<subseteq> set (publication_years r1)"
      "set (get_list (p_genres p)) \<subseteq> set (genres r1)"
      "set (get_list (p_languages p)) \<subseteq> set (languages r1)"
    unfolding r1_def
    by (cases "get_by_bl_id store (p_bl_record_id p)";
        simp add: upsert_found upsert_new list_of_set_set)+
  have eq: "set (variant_titles r2) = set (variant_titles r1)"
       "set (authors r2) = set (authors r1)"
       "set (publication_years r2) = set (publication_years r1)"
       "set (genres r2) = set (genres r1)"
       "set (languages r2) = set (languages r1)"
    unfolding r2_def using sub by (auto simp: upsert_found [OF l1] list_of_set_set)
  have d2: "distinct (variant_titles r2)" "distinct (authors r2)"
       "distinct (publication_years r2)" "distinct (genres r2)" "distinct (languages r2)"
    unfolding r2_def by (simp_all add: upsert_found [OF l1] list_of_set_distinct)
  have d1: "distinct (variant_titles r1) \<and> distinct (authors r1)
            \<and> distinct (publication_years r1) \<and> distinct (genres r1)
            \<and> distinct (languages r1)"
    if "get_by_bl_id store (p_bl_record_id p) \<noteq> None"
  proof -
    from that obtain old where "get_by_bl_id store (p_bl_record_id p) = Some old"
      by blast
    then show ?thesis
      unfolding r1_def by (simp add: upsert_found list_of_set_distinct)
  qed
  have l2: "get_by_bl_id (fst (upsert_from_parsed ord' s1 p)) (p_bl_record_id p) = Some r2"
    unfolding r2_def by (rule upsert_lookup)
  from l1 l2 eq d2 d1 show ?thesis
    by (simp add: Let_def case_prod_unfold p_def [symmetric]
          s1_def [symmetric] r1_def [symmetric] r2_def [symmetric])
qed

text \<open>
  The store holds a record with author \<open>A\<close>; the row with the author cell \<open>A;A\<close> is
  imported twice.
\<close>

theorem parse_upsert_twice_witness:
  "(let p = parse_row_to_record row_dup;
        store = fst (upsert_from_parsed insertion_order [] (parse_row_to_record row_1A));
        s1 = fst (upsert_from_parsed insertion_order store p);
        r1 = snd (upsert_from_parsed insertion_order store p);
        r2 = snd (upsert_from_parsed insertion_order s1 p)
    in get_by_bl_id store (p_bl_record_id p) \<noteq> None
       \<and> authors r1 = [u ''A''] \<and> authors r2 = [u ''A''] \<and> distinct (authors r1))"
proof -
  let ?pa = "parse_row_to_record row_1A" and ?p = "parse_row_to_record row_dup"
  let ?store = "fst (upsert_from_parsed insertion_order [] ?pa)"
  let ?old = "snd (upsert_from_parsed insertion_order [] ?pa)"
  let ?s1 = "fst (upsert_from_parsed insertion_order ?store ?p)"
  let ?r1 = "snd (upsert_from_parsed insertion_order ?store ?p)"
  let ?r2 = "snd (upsert_from_parsed insertion_order ?s1 ?p)"
  have found: "get_by_bl_id ?store (p_bl_record_id ?p) = Some ?old"
    using upsert_lookup [of insertion_order "[]" ?pa] by (simp add: p1A pdup)
  have old: "authors ?old = [u ''A'']"
    by (simp add: upsert_new get_by_bl_id_def p1A get_list_def)
  have r1: "authors ?r1 = [u ''A'']"
    by (simp add: upsert_found [OF found] old pdup get_list_def list_of_set.rep_eq
          insertion_order.rep_eq)
  have l1: "get_by_bl_id ?s1 (p_bl_record_id ?p) = Some ?r1"
    by (rule upsert_lookup)
  have r2: "authors ?r2 = [u ''A'']"
    by (simp add: upsert_found [OF l1] r1 pdup get_list_def list_of_set.rep_eq
          insertion_order.rep_eq)
  from parse_upsert_twice [of row_dup insertion_order ?store insertion_order] found r1 r2
  show ?thesis
    by (simp add: Let_def case_prod_unfold)
qed

text \<open>
  C2, as the claim words it, fails for the stored lists: into the empty store, the row
  with the author cell \<open>A;A\<close> is stored as \<open>[A, A]\<close> by the first upsert and as
  \<open>[A]\<close> by the second.
\<close>

theorem second_import_changes_list:
  "(let p = parse_row_to_record row_dup;
        s1 = fst (upsert_from_parsed insertion_order [] p);
        r1 = snd (upsert_from_parsed insertion_order [] p);
        r2 = snd (upsert_from_parsed insertion_order s1 p)
    in p_bl_record_id p = u ''1''
       \<and> authors r1 = [u ''A'', u ''A''] \<and> authors r2 = [u ''A'']
       \<and> authors r2 \<noteq> authors r1)"
proof -
  let ?p = "parse_row_to_record row_dup"
  let ?s1 = "fst (upsert_from_parsed insertion_order [] ?p)"
  let ?r1 = "snd (upsert_from_parsed insertion_order [] ?p)"
  have r1: "authors ?r1 = [u ''A'', u ''A'']"
    by (simp add: upsert_new get_by_bl_id_def pdup get_list_def)
  have l1: "get_by_bl_id ?s1 (p_bl_record_id ?p) = Some ?r1"
    by (rule upsert_lookup)
  have r2: "authors (snd (upsert_from_parsed insertion_order ?s1 ?p)) = [u ''A'']"
    by (simp add: upsert_found [OF l1] r1 pdup get_list_def list_of_set.rep_eq
          insertion_order.rep_eq)
  from r1 r2 show ?thesis
    by (simp add: Let_def pdup)
qed

subsection \<open>The identifier sentinel\<close>

lemma ingest_snoc:
  "ingest (steps @ [(ord, r)]) =
     fst (upsert_from_parsed ord (ingest steps) (parse_row_to_record r))"
  by (simp add: ingest_def)


lemma reachable_ingest: "reachable (ingest steps)"
proof (induction steps rule: rev_induct)
  case Nil
  show ?case by (simp add: ingest_def reachable_empty)
next
  case (snoc x steps)
  obtain ord r where "x = (ord, r)" by (cases x)
  with snoc show ?case by (simp add: ingest_snoc reachable_upsert)
qed

lemma reachable_is_ingest: "reachable store \<Longrightarrow> \<exists>steps. store = ingest steps"
proof (induction rule: reachable.induct)
  case reachable_empty
  have "[] = ingest []" by (simp add: ingest_def)
  then show ?case by blast
next
  case (reachable_upsert store ord r)
  then obtain steps where "store = ingest steps" by blast
  then have "fst (upsert_from_parsed ord store (parse_row_to_record r))
               = ingest (steps @ [(ord, r)])"
    by (simp add: ingest_snoc)
  then show ?case by blast
qed










subsection \<open>The multi-valued fields\<close>

lemma comic_no_blankD:
  assumes "comic_no_blank c"
    and "x \<in> set (variant_titles c) \<union> set (authors c) \<union> set (publication_years c)
              \<union> set (genres c) \<union> set (languages c)"
  shows "x \<noteq> [] \<and> \<not> list_all is_space x"
proof -
  from assms(1) have "\<forall>xs \<in> {variant_titles c, authors c, publication_years c, genres c,
      languages c}. \<forall>y \<in> set xs. y \<noteq> [] \<and> \<not> list_all is_space y"
    by (simp add: comic_no_blank_def no_blank_def list_all_iff)
  with assms(2) show ?thesis by blast
qed

text \<open>
  C4, as the code has it. In a reachable store no multi-valued field holds an empty or
  a whitespace-only string; and when an upsert of a parsed row finds its identifier in
  the store, the five multi-valued fields of the record it writes hold no value twice.
\<close>

theorem reachable_multi_valued_fields:
  assumes "reachable store"
  shows "(\<forall>c \<in> set store.
            \<forall>x \<in> set (variant_titles c) \<union> set (authors c) \<union> set (publication_years c)
                  \<union> set (genres c) \<union> set (languages c).
              x \<noteq> [] \<and> \<not> list_all is_space x)
         \<and> (\<forall>r old. get_by_bl_id store (p_bl_record_id (parse_row_to_record r)) = Some old \<longrightarrow>
               (let c = snd (upsert_from_parsed ord store (parse_row_to_record r))
                in distinct (variant_titles c) \<and> distinct (authors c)
                   \<and> distinct (publication_years c) \<and> distinct (genres c)
                   \<and> distinct (languages c)))"
proof (intro conjI allI impI ballI)
  fix c x
  assume "c \<in> set store"
  with reachable_no_blank [OF assms] have "comic_no_blank c"
    by (simp add: list_all_iff)
  moreover assume "x \<in> set (variant_titles c) \<union> set (authors c) \<union> set (publication_years c)
                  \<union> set (genres c) \<union> set (languages c)"
  ultimately have "x \<noteq> [] \<and> \<not> list_all is_space x"
    by (rule comic_no_blankD)
  then show "x \<noteq> []" and "\<not> list_all is_space x" by simp_all
next
  fix r old
  assume "get_by_bl_id store (p_bl_record_id (parse_row_to_record r)) = Some old"
  then show "let c = snd (upsert_from_parsed ord store (parse_row_to_record r))
                in distinct (variant_titles c) \<and> distinct (authors c)
                   \<and> distinct (publication_years c) \<and> distinct (genres c)
                   \<and> distinct (languages c)"
    by (simp add: Let_def upsert_found list_of_set_distinct)
qed

text \<open>
  The store after the import of one row with the author \<open>A\<close>, and the update of that
  record by a row whose author cell is \<open>A;A\<close>.
\<close>

theorem reachable_multi_valued_fields_witness:
  "(let store = fst (upsert_from_parsed insertion_order [] (parse_row_to_record row_1A));
        old = snd (upsert_from_parsed insertion_order [] (parse_row_to_record row_1A));
        new = snd (upsert_from_parsed insertion_order store (parse_row_to_record row_dup))
    in reachable store
       \<and> old \<in> set store \<and> u ''A'' \<in> set (authors old) \<and> \<not> list_all is_space (u ''A'')
       \<and> get_by_bl_id store (p_bl_record_id (parse_row_to_record row_dup)) = Some old
       \<and> distinct (authors new) \<and> authors new = [u ''A''])"
proof -
  let ?pa = "parse_row_to_record row_1A" and ?pd = "parse_row_to_record row_dup"
  let ?store = "fst (upsert_from_parsed insertion_order [] ?pa)"
  let ?old = "snd (upsert_from_parsed insertion_order [] ?pa)"
  let ?new = "snd (upsert_from_parsed insertion_order ?store ?pd)"
  have r: "reachable ?store"
    by (rule reachable_upsert [OF reachable_empty])
  have m: "?old \<in> set ?store"
    by (simp add: upsert_fst)
  have found: "get_by_bl_id ?store (p_bl_record_id ?pd) = Some ?old"
    using upsert_lookup [of insertion_order "[]" ?pa] by (simp add: p1A pdup)
  have old: "authors ?old = [u ''A'']"
    by (simp add: upsert_new get_by_bl_id_def p1A get_list_def)
  have new: "authors ?new = [u ''A'']"
    by (simp add: upsert_found [OF found] old pdup get_list_def list_of_set.rep_eq
          insertion_order.rep_eq)
  from reachable_multi_valued_fields [OF r] m found old new r
  show ?thesis
    by (auto simp: Let_def)
qed

text \<open>
  C4, as the claim words it, fails at a first insert: the cell \<open>A;A\<close> is stored as the
  list \<open>[A, A]\<close>.
\<close>

theorem first_insert_keeps_duplicates:
  "(let store = fst (upsert_from_parsed insertion_order [] (parse_row_to_record row_dup))
    in reachable store
       \<and> map authors store = [[u ''A'', u ''A'']]
       \<and> \<not> distinct (authors (hd store)))"
proof -
  have "reachable
          (fst (upsert_from_parsed insertion_order [] (parse_row_to_record row_dup)))"
    by (rule reachable_upsert [OF reachable_empty])
  then show ?thesis
    by (simp add: Let_def upsert_fst upsert_new get_by_bl_id_def pdup get_list_def)
qed

section \<open>The search\<close>

subsection \<open>The examples, evaluated\<close>

lemma example_titles: "title comic_apple = u ''apple''" "title comic_zebra = u ''Zebra''"
  by (simp_all add: comic_apple_def comic_zebra_def example_comic_def)

lemma no_args_filters:
  "apply_filters e (search_params (clean_search_params no_args)) qs [] = (qs, [])"
  by (simp add: no_args_def clean_search_params_def clean_str_def clean_lang_def
        search_params_def str_present_def lang_present_def)

lemma example_key_order: "u ''Zebra'' \<le> u ''apple''" "\<not> u ''apple'' \<le> u ''Zebra''"
  by (simp_all add: u_def)

lemma search_example:
  "fst (search example_env [comic_apple, comic_zebra] [] no_args) = [comic_zebra, comic_apple]"
  by (simp add: search_def Let_def no_args_filters example_env_def example_titles
        example_key_order)

lemma horror_params:
  "search_params (clean_search_params horror_by_alice) =
     [Genre (Some (u ''Horror'')), Author (Some (u ''Alice'')), Year None, Title None,
      Languages None, Edition None, NameType None]"
  by (simp add: horror_by_alice_def no_args_def clean_search_params_def clean_str_def
        clean_lang_def search_params_def py_strip_def is_space_def u_def)

lemma horror_none:
  "icontains_filter example_env (u ''genres'') [comic_apple] (Some (u ''Horror'')) = []"
  by (simp add: icontains_filter_def example_env_def comic_apple_def example_comic_def u_def
        py_strip_def is_space_def)

lemma alice_one:
  "icontains_filter example_env (u ''authors'') [comic_apple] (Some (u ''Alice''))
     = [comic_apple]"
  by (simp add: icontains_filter_def example_env_def comic_apple_def example_comic_def u_def
        py_strip_def is_space_def)

subsection \<open>Order of the filters and the early exit\<close>

lemma apply_filters_refines:
  "apply_filters e ps qs applied =
     (fst (spec_filter_chain e (filter param_present ps) qs),
      applied @ map (applied_entry e) (snd (spec_filter_chain e (filter param_present ps) qs)))"
  by (induction ps arbitrary: qs applied) (simp_all add: Let_def)

lemma apply_filters_break:
  assumes "param_present p"
    and "fst (apply_filters e (pre @ [p]) qs applied) = []"
  shows "apply_filters e (pre @ p # rest) qs applied = apply_filters e (pre @ [p]) qs applied"
  using assms
proof (induction pre arbitrary: qs applied)
  case Nil
  then show ?case by (simp add: Let_def split: if_splits)
next
  case (Cons a pre)
  show ?case
  proof (cases "param_present a \<and> apply_filter e qs a = []")
    case True
    then show ?thesis by (simp add: Let_def)
  next
    case False
    with Cons.prems Cons.IH show ?thesis
      by (auto simp: Let_def)
  qed
qed

lemma spec_filter_chain_evaluated: "ps \<noteq> [] \<Longrightarrow> snd (spec_filter_chain e ps qs) \<noteq> []"
  by (cases ps) simp_all

lemma apply_filters_applied:
  assumes "param_present p"
  shows "snd (apply_filters e (pre @ [p]) qs applied) \<noteq> []"
proof -
  from assms have "filter param_present (pre @ [p]) \<noteq> []"
    by simp
  then have "snd (spec_filter_chain e (filter param_present (pre @ [p])) qs) \<noteq> []"
    by (rule spec_filter_chain_evaluated)
  then show ?thesis
    by (simp only: apply_filters_refines snd_conv) simp
qed

lemma search_refines:
  "search e store log args =
     (take 10000 (sort_key (\<lambda>c. collate e (title c))
        (fst (spec_filter_chain e
                (filter param_present (search_params (clean_search_params args))) store))),
      log @ [\<lparr> query_text =
                 (if snd (spec_filter_chain e
                       (filter param_present (search_params (clean_search_params args)))
                       store) = []
                  then u ''empty_search''
                  else py_join (u '' AND '')
                         (map (applied_entry e)
                            (snd (spec_filter_chain e
                               (filter param_present
                                  (search_params (clean_search_params args))) store)))),
               result_ids = map bl_record_id
                 (take 10000 (sort_key (\<lambda>c. collate e (title c))
                    (fst (spec_filter_chain e
                       (filter param_present (search_params (clean_search_params args)))
                       store)))),
               num_results = length
                 (take 10000 (sort_key (\<lambda>c. collate e (title c))
                    (fst (spec_filter_chain e
                       (filter param_present (search_params (clean_search_params args)))
                       store)))) \<rparr>])"
  by (simp add: search_def Let_def apply_filters_refines)

lemma search_break:
  assumes "search_params (clean_search_params args) = pre @ p # rest"
    and "param_present p"
    and "fst (apply_filters e (pre @ [p]) store []) = []"
  shows "search e store log args =
           ([], log @ [\<lparr> query_text =
                           py_join (u '' AND '') (snd (apply_filters e (pre @ [p]) store [])),
                         result_ids = [], num_results = 0 \<rparr>])"
proof -
  from assms(2,3)
  have "apply_filters e (pre @ p # rest) store [] = apply_filters e (pre @ [p]) store []"
    by (rule apply_filters_break)
  with assms(1)
  have 1: "apply_filters e (search_params (clean_search_params args)) store []
             = apply_filters e (pre @ [p]) store []"
    by simp
  from assms(2) have 2: "snd (apply_filters e (pre @ [p]) store []) \<noteq> []"
    by (rule apply_filters_applied)
  from 1 2 assms(3) show ?thesis
    by (simp add: search_def Let_def case_prod_unfold)
qed

text \<open>
  C6. The entries of \<open>search_params\<close> are genre, author, year, title, languages,
  edition, name_type, in this order. The loop of \<open>search\<close> computes what the
  specification's chain computes on the parameters that are present: each is applied to
  the result of the one before, its \<open>name=value\<close> pair is appended to
  \<open>applied_filters\<close>, and nothing is evaluated after a filter that leaves no row. So when
  the loop over a prefix ending in a present parameter \<open>p\<close> ends with an empty query
  set, the loop over any longer list returns the same query set and the same
  \<open>applied_filters\<close>. \<open>search\<close> itself returns the first 10000 rows, in title order,
  of what the chain leaves of the store, and logs the pairs of the filters the chain
  evaluated; when a present parameter of the search empties the query set, the search
  returns no record and logs the pairs up to that parameter and none after it.
\<close>

theorem search_filters_in_order:
  "map param_name (search_params params) =
     [u ''genre'', u ''author'', u ''year'', u ''title'', u ''languages'', u ''edition'',
      u ''name_type'']
   \<and> apply_filters e ps qs applied =
       (fst (spec_filter_chain e (filter param_present ps) qs),
        applied @ map (applied_entry e) (snd (spec_filter_chain e (filter param_present ps) qs)))
   \<and> (param_present p \<and> fst (apply_filters e (pre @ [p]) qs applied) = [] \<longrightarrow>
        apply_filters e (pre @ p # rest) qs applied = apply_filters e (pre @ [p]) qs applied)
   \<and> (let chain = spec_filter_chain e
                      (filter param_present (search_params (clean_search_params args))) store;
           results = take 10000 (sort_key (\<lambda>c. collate e (title c)) (fst chain))
       in search e store log args =
            (results,
             log @ [\<lparr> query_text =
                        (if snd chain = [] then u ''empty_search''
                         else py_join (u '' AND '') (map (applied_entry e) (snd chain))),
                      result_ids = map bl_record_id results,
                      num_results = length results \<rparr>]))
   \<and> (search_params (clean_search_params args) = pre' @ p' # rest' \<and> param_present p'
        \<and> fst (apply_filters e (pre' @ [p']) store []) = [] \<longrightarrow>
        search e store log args =
          ([], log @ [\<lparr> query_text =
                          py_join (u '' AND '') (snd (apply_filters e (pre' @ [p']) store [])),
                        result_ids = [], num_results = 0 \<rparr>]))"
proof (intro conjI impI)
  show "map param_name (search_params params) =
     [u ''genre'', u ''author'', u ''year'', u ''title'', u ''languages'', u ''edition'',
      u ''name_type'']"
    by (simp add: search_params_def)
next
  show "apply_filters e ps qs applied =
       (fst (spec_filter_chain e (filter param_present ps) qs),
        applied @ map (applied_entry e) (snd (spec_filter_chain e (filter param_present ps) qs)))"
    by (rule apply_filters_refines)
next
  assume "param_present p \<and> fst (apply_filters e (pre @ [p]) qs applied) = []"
  then have "param_present p" and "fst (apply_filters e (pre @ [p]) qs applied) = []"
    by simp_all
  then show "apply_filters e (pre @ p # rest) qs applied = apply_filters e (pre @ [p]) qs applied"
    by (rule apply_filters_break)
next
  show "let chain = spec_filter_chain e
                      (filter param_present (search_params (clean_search_params args))) store;
           results = take 10000 (sort_key (\<lambda>c. collate e (title c)) (fst chain))
       in search e store log args =
            (results,
             log @ [\<lparr> query_text =
                        (if snd chain = [] then u ''empty_search''
                         else py_join (u '' AND '') (map (applied_entry e) (snd chain))),
                      result_ids = map bl_record_id results,
                      num_results = length results \<rparr>])"
    unfolding Let_def by (rule search_refines)
next
  assume "search_params (clean_search_params args) = pre' @ p' # rest' \<and> param_present p'
        \<and> fst (apply_filters e (pre' @ [p']) store []) = []"
  then have "search_params (clean_search_params args) = pre' @ p' # rest'"
    and "param_present p'" and "fst (apply_filters e (pre' @ [p']) store []) = []"
    by simp_all
  then show "search e store log args =
          ([], log @ [\<lparr> query_text =
                          py_join (u '' AND '') (snd (apply_filters e (pre' @ [p']) store [])),
                        result_ids = [], num_results = 0 \<rparr>])"
    by (rule search_break)
qed

text \<open>
  The store holds one comic of genre Fantasy by Alice; the query asks for genre Horror and
  author Alice. The genre filter leaves nothing, the author filter, which would match, is
  not reached, and the logged description is \<open>genre=Horror\<close>.
\<close>

theorem search_filters_in_order_witness:
  "param_present (Genre (Some (u ''Horror'')))
   \<and> search_params (clean_search_params horror_by_alice) =
        [] @ Genre (Some (u ''Horror''))
           # [Author (Some (u ''Alice'')), Year None, Title None, Languages None, Edition None,
              NameType None]
   \<and> fst (apply_filters example_env ([] @ [Genre (Some (u ''Horror''))]) [comic_apple] []) = []
   \<and> apply_filter example_env [comic_apple] (Author (Some (u ''Alice''))) = [comic_apple]
   \<and> apply_filters example_env (search_params (clean_search_params horror_by_alice))
        [comic_apple] [] = ([], [u ''genre=Horror''])
   \<and> search example_env [comic_apple] [] horror_by_alice =
        ([], [\<lparr> query_text = u ''genre=Horror'', result_ids = [], num_results = 0 \<rparr>])"
proof -
  let ?rest = "[Author (Some (u ''Alice'')), Year None, Title None, Languages None,
      Edition None, NameType None]"
  have p: "param_present (Genre (Some (u ''Horror'')))"
    by (simp add: str_present_def u_def)
  have sp: "search_params (clean_search_params horror_by_alice) =
        [] @ Genre (Some (u ''Horror'')) # ?rest"
    by (simp add: horror_params)
  have one: "apply_filters example_env [Genre (Some (u ''Horror''))] [comic_apple] []
               = ([], [u ''genre=Horror''])"
    using p by (simp add: horror_none Let_def applied_entry_def str_text_def) (simp add: u_def)
  then have e: "fst (apply_filters example_env ([] @ [Genre (Some (u ''Horror''))])
                  [comic_apple] []) = []"
    by simp
  note inst = search_filters_in_order [where e = example_env and pre = "[]"
      and p = "Genre (Some (u ''Horror''))" and rest = "?rest" and qs = "[comic_apple]"
      and applied = "[]" and args = horror_by_alice and store = "[comic_apple]"
      and log = "[]" and pre' = "[]" and p' = "Genre (Some (u ''Horror''))"
      and rest' = "?rest"]
  from inst p e
  have "apply_filters example_env ([] @ Genre (Some (u ''Horror'')) # ?rest) [comic_apple] []
          = apply_filters example_env ([] @ [Genre (Some (u ''Horror''))]) [comic_apple] []"
    by blast
  with one sp
  have all: "apply_filters example_env (search_params (clean_search_params horror_by_alice))
          [comic_apple] [] = ([], [u ''genre=Horror''])"
    by simp
  from inst p e sp
  have "search example_env [comic_apple] [] horror_by_alice =
          ([], [] @ [\<lparr> query_text =
               py_join (u '' AND '')
                 (snd (apply_filters example_env ([] @ [Genre (Some (u ''Horror''))])
                         [comic_apple] [])),
               result_ids = [], num_results = 0 \<rparr>])"
    by blast
  with one have s: "search example_env [comic_apple] [] horror_by_alice =
        ([], [\<lparr> query_text = u ''genre=Horror'', result_ids = [], num_results = 0 \<rparr>])"
    by simp
  from p sp e all s alice_one show ?thesis
    by simp
qed

subsection \<open>Blank parameters\<close>

lemma icontains_filter_blank: "blank_str v \<Longrightarrow> icontains_filter e field qs v = qs"
  by (cases v) (simp_all add: blank_str_def icontains_filter_def py_strip_Nil_iff)

lemma title_filter_blank: "blank_str v \<Longrightarrow> title_filter e qs v = qs"
  by (cases v) (simp_all add: blank_str_def title_filter_def py_strip_Nil_iff)

lemma language_tokens_blank_str:
  assumes "list_all is_space s"
  shows "language_tokens (LangStr s) = []"
proof -
  from assms have "44 \<notin> set s"
    by (auto simp: list_all_iff dest: is_space_not_comma)
  then have "py_split 44 s = [s]"
    by (rule py_split_no_sep)
  moreover from assms have "py_strip s = []"
    by (simp only: py_strip_Nil_iff)
  ultimately show ?thesis
    by (simp add: language_tokens_def)
qed

lemma language_tokens_blank_list:
  assumes "list_all (list_all is_space) xs"
  shows "language_tokens (LangList xs) = []"
proof -
  from assms have "\<forall>x \<in> set xs. py_strip x = []"
    by (simp add: list_all_iff py_strip_Nil_iff)
  then have "filter (\<lambda>lang. lang \<noteq> [] \<and> py_strip lang \<noteq> []) xs = []"
    by (simp add: filter_empty_conv)
  then show ?thesis
    by (simp add: language_tokens_def)
qed

lemma language_filter_blank: "blank_lang v \<Longrightarrow> language_filter e qs v = qs"
proof (cases v)
  case None
  then show ?thesis by (simp add: language_filter_def)
next
  case (Some lv)
  assume "blank_lang v"
  with Some have "language_tokens lv = []"
    by (cases lv)
       (simp_all add: blank_lang_def language_tokens_blank_str language_tokens_blank_list)
  with Some show ?thesis by (simp add: language_filter_def)
qed

text \<open>
  On the values of the annotated types, each of the seven filters returns the query set
  it was given when the parameter is blank.
\<close>

lemma apply_filter_blank:
  "(blank_str v \<longrightarrow>
      apply_filter e qs (Genre v) = qs \<and> apply_filter e qs (Author v) = qs
      \<and> apply_filter e qs (Year v) = qs \<and> apply_filter e qs (Title v) = qs
      \<and> apply_filter e qs (Edition v) = qs \<and> apply_filter e qs (NameType v) = qs)
   \<and> (blank_lang l \<longrightarrow> apply_filter e qs (Languages l) = qs)"
  by (simp add: icontains_filter_blank title_filter_blank language_filter_blank)

lemma py_icontains_filter_typed:
  "py_icontains_filter e field qs (str_value v) = Inr (icontains_filter e field qs v)"
  by (cases v) (auto simp: py_icontains_filter_def icontains_filter_def str_value_def py_strip_def)

lemma py_title_filter_typed:
  "py_title_filter e qs (str_value v) = Inr (title_filter e qs v)"
  by (cases v) (auto simp: py_title_filter_def title_filter_def str_value_def py_strip_def)

lemma py_language_items_strs:
  "py_language_items (map PyStr xs) =
     Inr (map py_strip (filter (\<lambda>lang. lang \<noteq> [] \<and> py_strip lang \<noteq> []) xs))"
  by (induction xs) (auto simp: py_strip_def)

lemma py_language_filter_typed:
  "py_language_filter e qs (lang_pyval v) = Inr (language_filter e qs v)"
proof (cases v)
  case None
  then show ?thesis
    by (simp add: py_language_filter_def language_filter_def lang_pyval_def)
next
  case (Some lv)
  then show ?thesis
    by (cases lv)
       (auto simp: py_language_filter_def language_filter_def lang_pyval_def
          py_language_tokens_def language_tokens_def py_language_items_strs)
qed

lemma py_apply_filter_typed:
  "py_apply_filter e (param_filter p) qs (param_value p) = Inr (apply_filter e qs p)"
  by (cases p)
     (simp_all add: py_icontains_filter_typed py_title_filter_typed py_language_filter_typed)

lemma py_clean_items_strs:
  "py_clean_items (map PyStr xs) =
     Inr (map py_strip (filter (\<lambda>item. item \<noteq> [] \<and> py_strip item \<noteq> []) xs))"
  by (induction xs) (auto simp: py_strip_def)

lemma py_clean_param_typed:
  "py_clean_param (str_value v) = Inr (str_value (clean_str v))"
  "py_clean_param (lang_pyval l) = Inr (lang_pyval (clean_lang l))"
proof -
  show "py_clean_param (str_value v) = Inr (str_value (clean_str v))"
    by (cases v) (simp_all add: str_value_def clean_str_def)
  show "py_clean_param (lang_pyval l) = Inr (lang_pyval (clean_lang l))"
  proof (cases l)
    case None
    then show ?thesis by (simp add: lang_pyval_def clean_lang_def)
  next
    case (Some lv)
    then show ?thesis
      by (cases lv) (simp_all add: lang_pyval_def clean_lang_def py_clean_items_strs Let_def)
  qed
qed

lemma py_icontains_filter_blank:
  "blank_value v \<Longrightarrow> py_icontains_filter e field qs v = Inr qs"
  by (cases v) (auto simp: py_icontains_filter_def py_strip_Nil_iff)

lemma py_title_filter_blank: "blank_value v \<Longrightarrow> py_title_filter e qs v = Inr qs"
  by (cases v) (auto simp: py_title_filter_def py_strip_Nil_iff)

lemma py_language_items_blank:
  "list_all blank_value xs \<Longrightarrow> py_language_items xs = Inr []"
proof (induction xs)
  case Nil
  then show ?case by simp
next
  case (Cons x xs)
  then show ?case
    by (cases x) (auto simp: py_strip_Nil_iff)
qed

lemma py_language_filter_blank_list:
  "list_all blank_value xs \<Longrightarrow> py_language_filter e qs (PyList xs) = Inr qs"
  by (simp add: py_language_filter_def py_language_tokens_def py_language_items_blank)

lemma py_language_filter_blank: "blank_value v \<Longrightarrow> py_language_filter e qs v = Inr qs"
proof (cases v)
  case (PyStr s)
  assume "blank_value v"
  with PyStr have "language_tokens (LangStr s) = []"
    by (simp add: language_tokens_blank_str)
  with PyStr show ?thesis
    by (simp add: py_language_filter_def py_language_tokens_def language_tokens_def)
qed (simp_all add: py_language_filter_def)

lemma py_apply_filter_blank: "blank_value v \<Longrightarrow> py_apply_filter e f qs v = Inr qs"
  by (cases f)
     (simp_all add: py_icontains_filter_blank py_title_filter_blank py_language_filter_blank)

lemma py_language_items_typed:
  "list_all str_typed xs \<Longrightarrow> \<exists>langs. py_language_items xs = Inr langs"
proof (induction xs)
  case Nil
  then show ?case by simp
next
  case (Cons x xs)
  then obtain langs where "py_language_items xs = Inr langs"
    by auto
  with Cons.prems show ?case
    by (cases x) simp_all
qed

lemma py_language_filter_typed_list:
  assumes "list_all str_typed xs"
  shows "\<exists>qs'. py_language_filter e qs (PyList xs) = Inr qs'"
proof -
  from assms obtain langs where "py_language_items xs = Inr langs"
    using py_language_items_typed by blast
  then show ?thesis
    by (simp add: py_language_filter_def py_language_tokens_def)
qed

lemma py_apply_filter_str_typed:
  assumes "str_typed v"
  shows "\<exists>qs'. py_apply_filter e f qs v = Inr qs'"
proof -
  have "\<exists>w. v = str_value w"
  proof (cases v)
    case PyNone
    then have "v = str_value None" by (simp add: str_value_def)
    then show ?thesis ..
  next
    case (PyStr s)
    then have "v = str_value (Some s)" by (simp add: str_value_def)
    then show ?thesis ..
  next
    case (PyInt n)
    with assms show ?thesis by simp
  next
    case (PyList xs)
    with assms show ?thesis by simp
  qed
  then obtain w where sv: "v = str_value w" ..
  have lv: "v = lang_pyval (map_option LangStr w)"
    unfolding sv by (cases w) (simp_all add: str_value_def lang_pyval_def)
  show ?thesis
  proof (cases f)
    case LanguageFilter
    have "py_apply_filter e f qs v = Inr (language_filter e qs (map_option LangStr w))"
      by (simp only: LanguageFilter lv py_apply_filter.simps py_language_filter_typed)
    then show ?thesis ..
  next
    case TitleFilter
    have "py_apply_filter e f qs v = Inr (title_filter e qs w)"
      by (simp only: TitleFilter sv py_apply_filter.simps py_title_filter_typed)
    then show ?thesis ..
  next
    case GenreFilter
    have "py_apply_filter e f qs v = Inr (icontains_filter e (u ''genres'') qs w)"
      by (simp only: GenreFilter sv py_apply_filter.simps py_icontains_filter_typed)
    then show ?thesis ..
  next
    case AuthorFilter
    have "py_apply_filter e f qs v = Inr (icontains_filter e (u ''authors'') qs w)"
      by (simp only: AuthorFilter sv py_apply_filter.simps py_icontains_filter_typed)
    then show ?thesis ..
  next
    case YearFilter
    have "py_apply_filter e f qs v = Inr (icontains_filter e (u ''publication_years'') qs w)"
      by (simp only: YearFilter sv py_apply_filter.simps py_icontains_filter_typed)
    then show ?thesis ..
  next
    case EditionFilter
    have "py_apply_filter e f qs v = Inr (icontains_filter e (u ''other_fields'') qs w)"
      by (simp only: EditionFilter sv py_apply_filter.simps py_icontains_filter_typed)
    then show ?thesis ..
  next
    case NameTypeFilter
    have "py_apply_filter e f qs v = Inr (icontains_filter e (u ''other_fields'') qs w)"
      by (simp only: NameTypeFilter sv py_apply_filter.simps py_icontains_filter_typed)
    then show ?thesis ..
  qed
qed

text \<open>
  C7, as the code has it. Each of the seven filters returns the query set it was given
  when the parameter is \<open>None\<close>, an empty or whitespace-only string or an empty list, and
  the language filter also for a list whose items are all blank. No filter raises on
  \<open>None\<close> or a string, and the language filter raises on no list of strings and
  \<open>None\<close>s. On the values of the annotated types the filters return what the typed
  \<open>apply_filter\<close> of the search returns.
\<close>

theorem blank_parameter_is_noop:
  "(blank_value v \<longrightarrow> py_apply_filter e f qs v = Inr qs)
   \<and> (list_all blank_value xs \<longrightarrow> py_apply_filter e LanguageFilter qs (PyList xs) = Inr qs)
   \<and> (str_typed v \<longrightarrow> (\<exists>qs'. py_apply_filter e f qs v = Inr qs'))
   \<and> (list_all str_typed xs \<longrightarrow>
        (\<exists>qs'. py_apply_filter e LanguageFilter qs (PyList xs) = Inr qs'))
   \<and> py_apply_filter e (param_filter p) qs (param_value p) = Inr (apply_filter e qs p)"
  by (simp add: py_apply_filter_blank py_language_filter_blank_list py_apply_filter_str_typed
        py_language_filter_typed_list py_apply_filter_typed)

text \<open>
  A whitespace-only genre and a list of blank languages leave the example store as it is;
  the genre Horror, which is not blank, does filter.
\<close>

theorem blank_parameter_is_noop_witness:
  "blank_value (PyStr (u ''  '')) \<and> str_typed (PyStr (u ''  ''))
   \<and> list_all blank_value [PyStr (u '' ''), PyNone]
   \<and> list_all str_typed [PyStr (u '' ''), PyNone]
   \<and> py_apply_filter example_env GenreFilter [comic_apple] (PyStr (u ''  ''))
       = Inr [comic_apple]
   \<and> py_apply_filter example_env LanguageFilter [comic_apple]
         (PyList [PyStr (u '' ''), PyNone]) = Inr [comic_apple]
   \<and> py_apply_filter example_env GenreFilter [comic_apple] (PyStr (u ''Horror'')) = Inr []"
proof -
  have b: "blank_value (PyStr (u ''  ''))" "str_typed (PyStr (u ''  ''))"
    "list_all blank_value [PyStr (u '' ''), PyNone]"
    "list_all str_typed [PyStr (u '' ''), PyNone]"
    by (simp_all add: u_def is_space_def)
  have h: "py_apply_filter example_env GenreFilter [comic_apple] (PyStr (u ''Horror'')) = Inr []"
    using py_icontains_filter_typed [of example_env "u ''genres''" "[comic_apple]"
        "Some (u ''Horror'')"]
    by (simp add: horror_none str_value_def)
  from blank_parameter_is_noop [of "PyStr (u ''  '')" example_env GenreFilter "[comic_apple]"
      "[PyStr (u '' ''), PyNone]"] b
  have "py_apply_filter example_env GenreFilter [comic_apple] (PyStr (u ''  ''))
       = Inr [comic_apple]"
    and "py_apply_filter example_env LanguageFilter [comic_apple]
         (PyList [PyStr (u '' ''), PyNone]) = Inr [comic_apple]"
    by blast+
  with b h show ?thesis
    by simp
qed

text \<open>
  C7, as the claim words it ("no malformed filter parameter ever raises an error"),
  fails for a value that is not a string: \<open>_clean_search_params\<close> passes the integer
  1987 through, it is truthy, and \<open>value.strip()\<close> in the year filter raises
  \<open>AttributeError\<close>; the language filter raises \<open>TypeError\<close> on it and
  \<open>AttributeError\<close> on a list that holds it.
\<close>

theorem filter_raises_on_integer:
  "py_clean_param (PyInt 1987) = Inr (PyInt 1987) \<and> truthy (PyInt 1987)
   \<and> py_apply_filter example_env YearFilter [comic_apple] (PyInt 1987) = Inl AttributeError
   \<and> py_apply_filter example_env LanguageFilter [comic_apple] (PyInt 1987) = Inl TypeError
   \<and> py_apply_filter example_env LanguageFilter [comic_apple] (PyList [PyInt 1987])
       = Inl AttributeError"
  by (simp add: py_icontains_filter_def py_language_filter_def py_language_tokens_def)

subsection \<open>Order and size of the result\<close>

text \<open>
  C8, as the code has it. The records \<open>search\<close> returns are in ascending order of
  their titles' keys under the collation of the title column (\<open>order_by("title")\<close>), and
  there are at most 10000 of them.
\<close>

theorem search_sorted_by_collation:
  "sorted (map (\<lambda>c. collate e (title c)) (fst (search e store log args)))
   \<and> length (fst (search e store log args)) \<le> 10000"
  by (simp add: search_def Let_def case_prod_unfold take_map [symmetric])

text \<open>
  C8, as the claim words it, fails under the binary collation: \<open>Zebra\<close> comes before
  \<open>apple\<close>, which is not the order of the lower-cased titles; \<open>sort_results\<close>, which
  the views call afterwards, puts \<open>apple\<close> first (the titles are ASCII, where
  \<open>py_lower\<close> is \<open>str.lower()\<close>).
\<close>

theorem search_binary_order:
  "map title (fst (search example_env [comic_apple, comic_zebra] [] no_args))
     = [u ''Zebra'', u ''apple'']
   \<and> \<not> sorted (map (\<lambda>c. py_lower (title c))
                  (fst (search example_env [comic_apple, comic_zebra] [] no_args)))
   \<and> map title (sort_results py_lower [comic_apple, comic_zebra] (u ''asc''))
       = [u ''apple'', u ''Zebra'']"
proof -
  have low: "py_lower (u ''Zebra'') = u ''zebra''" "py_lower (u ''apple'') = u ''apple''"
    by (simp_all add: py_lower_def lower_char_def u_def)
  have ord: "\<not> u ''zebra'' \<le> u ''apple''" "u ''apple'' \<le> u ''zebra''"
    by (simp_all add: u_def)
  show ?thesis
    by (simp add: search_example example_titles low ord sort_results_def)
qed

subsection \<open>The report of the top results\<close>

text \<open>
  C10. The log names the identifier \<open>X\<close> and no comic has it: \<open>top_results\<close> returns
  the pair of \<open>None\<close> and the count, where the specification skips the identifier, as
  the sibling report \<open>names_in_more_than_n_results\<close> does.
\<close>

theorem top_results_unresolved_id:
  "top_results [] [\<lparr> query_text = u ''genre=G'', result_ids = [u ''X''], num_results = 1 \<rparr>] 10
     = [(None, 1)]
   \<and> top_results_spec []
       [\<lparr> query_text = u ''genre=G'', result_ids = [u ''X''], num_results = 1 \<rparr>] 10 = []
   \<and> names_in_more_than_n_results []
       [\<lparr> query_text = u ''genre=G'', result_ids = [u ''X''], num_results = 1 \<rparr>] 0 = []"
  by (simp add: top_results_def top_results_spec_def names_in_more_than_n_results_def
        count_results_def py_slice_to_def get_by_bl_id_def)

section \<open>The text normalizer\<close>

lemma py_replace_absent: "c \<notin> set s \<Longrightarrow> py_replace c r s = s"
  by (induction s) (auto simp: py_replace_def)

lemma set_py_replace: "set (py_replace c r s) \<subseteq> (set s - {c}) \<union> set r"
  by (induction s) (auto simp: py_replace_def)

lemma foldl_replace_removes:
  assumes "x \<in> fst ` set reps \<or> x \<notin> set t"
    and "\<forall>(c, r) \<in> set reps. x \<notin> set r"
  shows "x \<notin> set (foldl (\<lambda>t (c, r). py_replace c r t) t reps)"
  using assms
proof (induction reps arbitrary: t)
  case Nil
  then show ?case by simp
next
  case (Cons cr reps)
  obtain c r where cr: "cr = (c, r)" by (cases cr)
  from Cons.prems cr have r: "x \<notin> set r" by simp
  have "x \<in> fst ` set reps \<or> x \<notin> set (py_replace c r t)"
  proof (cases "x = c")
    case True
    with r set_py_replace [of c r t] show ?thesis by auto
  next
    case False
    with Cons.prems(1) cr r set_py_replace [of c r t] show ?thesis by auto
  qed
  moreover from Cons.prems have "\<forall>(c, r) \<in> set reps. x \<notin> set r" by simp
  ultimately show ?case using cr by (simp add: Cons.IH)
qed

lemma foldl_replace_absent:
  "\<forall>(c, r) \<in> set reps. c \<notin> set t \<Longrightarrow> foldl (\<lambda>t (c, r). py_replace c r t) t reps = t"
  by (induction reps) (auto simp: py_replace_absent)

lemma replace_all_removes:
  "x \<in> fst ` set replacements \<Longrightarrow> x \<notin> set (replace_all t)"
  unfolding replace_all_def
  by (rule foldl_replace_removes) (auto simp: replacements_def u_def)

lemma replace_all_absent:
  "\<forall>x \<in> fst ` set replacements. x \<notin> set t \<Longrightarrow> replace_all t = t"
  unfolding replace_all_def by (rule foldl_replace_absent) force

lemma set_blank_others: "set (blank_others alnum s) \<subseteq> insert 32 (set s)"
  by (auto simp: blank_others_def)

lemma set_collapse_spaces: "set (collapse_spaces b s) \<subseteq> insert 32 (set s)"
  by (induction s arbitrary: b) auto

lemma set_py_strip: "set (py_strip s) \<subseteq> set s"
  by (auto simp: py_strip_def dest!: set_dropWhileD)

lemma space_not_replaced: "32 \<notin> fst ` set replacements"
  by (simp add: replacements_def)

lemma clean_text_no_replaced:
  assumes "x \<in> fst ` set replacements"
  shows "x \<notin> set (clean_text alnum t)"
proof
  assume "x \<in> set (clean_text alnum t)"
  then have "x \<in> set (collapse_spaces False (blank_others alnum (replace_all t)))"
    unfolding clean_text_def by (rule subsetD [OF set_py_strip])
  then have "x \<in> insert 32 (set (blank_others alnum (replace_all t)))"
    by (rule subsetD [OF set_collapse_spaces])
  moreover from assms space_not_replaced have "x \<noteq> 32"
    by (metis)
  ultimately have "x \<in> set (blank_others alnum (replace_all t))"
    by simp
  then have "x \<in> insert 32 (set (replace_all t))"
    by (rule subsetD [OF set_blank_others])
  with \<open>x \<noteq> 32\<close> have "x \<in> set (replace_all t)"
    by simp
  with replace_all_removes [OF assms] show False
    by simp
qed

lemma is_space_32: "is_space 32"
  by (simp add: is_space_def)

lemma kept_space: "kept alnum 32"
  by (simp add: kept_def is_space_32)

lemma blank_others_kept: "list_all (kept alnum) (blank_others alnum s)"
  by (auto simp: blank_others_def kept_def list_all_iff is_space_32)

lemma blank_others_fixed: "list_all (kept alnum) s \<Longrightarrow> blank_others alnum s = s"
  by (induction s) (auto simp: blank_others_def kept_def)

lemma collapse_spaces_kept:
  "list_all (kept alnum) s \<Longrightarrow> list_all (kept alnum) (collapse_spaces b s)"
  using set_collapse_spaces [of b s] kept_space [of alnum] by (auto simp: list_all_iff)

lemma py_strip_kept: "list_all (kept alnum) s \<Longrightarrow> list_all (kept alnum) (py_strip s)"
  using set_py_strip [of s] by (auto simp: list_all_iff)

lemma clean_text_kept: "list_all (kept alnum) (clean_text alnum t)"
  unfolding clean_text_def
  by (intro py_strip_kept collapse_spaces_kept blank_others_kept)

lemma single_spaced_weaken: "single_spaced b s \<Longrightarrow> single_spaced False s"
  by (cases s) (auto split: if_splits)

lemma single_spaced_collapse: "single_spaced b (collapse_spaces b s)"
  by (induction s arbitrary: b) (auto simp: is_space_32)

lemma collapse_spaces_fixed: "single_spaced b s \<Longrightarrow> collapse_spaces b s = s"
  by (induction s arbitrary: b) (auto split: if_splits)

lemma single_spaced_suffix: "single_spaced b (xs @ ys) \<Longrightarrow> single_spaced False ys"
  by (induction xs arbitrary: b) (auto split: if_splits intro: single_spaced_weaken)

lemma single_spaced_prefix: "single_spaced b (xs @ ys) \<Longrightarrow> single_spaced b xs"
  by (induction xs arbitrary: b) (auto split: if_splits)

lemma py_strip_infix:
  "takeWhile is_space s @ py_strip s
     @ rev (takeWhile is_space (rev (dropWhile is_space s))) = s"
proof -
  let ?d = "dropWhile is_space s"
  have "py_strip s @ rev (takeWhile is_space (rev ?d))
          = rev (takeWhile is_space (rev ?d) @ dropWhile is_space (rev ?d))"
    by (simp only: py_strip_def rev_append)
  also have "\<dots> = ?d"
    by (simp only: takeWhile_dropWhile_id rev_rev_ident)
  finally show ?thesis
    by (simp only: takeWhile_dropWhile_id)
qed

lemma single_spaced_strip:
  assumes "single_spaced b s"
  shows "single_spaced False (py_strip s)"
proof -
  from assms
  have "single_spaced b (takeWhile is_space s @ (py_strip s
         @ rev (takeWhile is_space (rev (dropWhile is_space s)))))"
    by (simp only: py_strip_infix)
  then have "single_spaced False (py_strip s
         @ rev (takeWhile is_space (rev (dropWhile is_space s))))"
    by (rule single_spaced_suffix)
  then show ?thesis
    by (rule single_spaced_prefix)
qed

lemma clean_text_single_spaced: "single_spaced False (clean_text alnum t)"
  unfolding clean_text_def by (rule single_spaced_strip) (rule single_spaced_collapse)

lemma clean_text_idem: "clean_text alnum (clean_text alnum t) = clean_text alnum t"
proof -
  let ?c = "clean_text alnum t"
  have "\<forall>x \<in> fst ` set replacements. x \<notin> set ?c"
    by (simp add: clean_text_no_replaced)
  then have 1: "replace_all ?c = ?c"
    by (rule replace_all_absent)
  have 2: "blank_others alnum ?c = ?c"
    by (rule blank_others_fixed) (rule clean_text_kept)
  have 3: "collapse_spaces False ?c = ?c"
    by (rule collapse_spaces_fixed) (rule clean_text_single_spaced)
  have "py_strip ?c = ?c"
    unfolding clean_text_def by (rule py_strip_idem)
  with 1 2 3 show ?thesis
    by (simp add: clean_text_def [of alnum "clean_text alnum t"])
qed

text \<open>
  C9. Cleaning a cleaned text changes nothing, whatever the table of alphanumeric
  characters is; \<open>None\<close> and the empty string are returned as they are. The same holds
  for \<open>get_clean_title\<close>, which cleans the title of a comic.
\<close>

theorem clean_idempotent:
  "clean_special_characters alnum (clean_special_characters alnum x)
     = clean_special_characters alnum x
   \<and> clean_special_characters alnum None = None
   \<and> clean_special_characters alnum (Some []) = Some []
   \<and> get_clean_title alnum (c \<lparr> title := get_clean_title alnum c \<rparr>) = get_clean_title alnum c"
  by (cases x) (simp_all add: clean_special_characters_def get_clean_title_def clean_text_idem)

section \<open>The import loop\<close>

text \<open>
  A row the import command handles, cleaned or not, skipped or not, leaves the record
  store reachable.
\<close>

lemma import_row_reachable:
  "reachable store \<Longrightarrow> reachable (import_row ord alnum clean_chars store r)"
  by (simp add: import_row_def Let_def reachable_upsert)

end
